theory Spec2Isabelle
  imports Main "HOL-Library.Word"
begin

section \<open>The debug tables of clrdebugheader.cpp\<close>

text \<open>
  The file declares five row tables and a table directory as static arrays of fixed
  size, a header structure exported under a fixed symbol, and one function,
  \<open>PopulateClrDebugHeaders\<close>, whose body is a straight line of macro invocations. Each
  macro stores a row at the current position of its table, increments the position and
  then asserts that the position does not exceed the array size.

  Pointers are modelled by what they point at: a \<open>const char*\<close> to a string literal is
  the string, the address of a static array or of a global variable is a value of
  \<open>addr\<close>.
\<close>

type_synonym uint8_t = "8 word"
type_synonym uint16_t = "16 word"
type_synonym uint32_t = "32 word"

datatype addr =
    Addr_s_DebugTables
  | Addr_s_DebugGlobals
  | Addr_s_DebugTypes
  | Addr_s_DebugFields
  | Addr_s_DebugBases
  | Addr_s_DebugDefines
  | Addr_of string

record DebugTable =
  TableName :: string
  TableElements :: addr
  RowCount :: uint32_t

record DebugGlobalRow =
  GlobalName :: string
  Address :: addr

record DebugTypeRow =
  TypeName :: string
  Size :: uint32_t

record DebugMemberOffsetRow =
  MemberName :: string
  TypeId :: uint32_t
  Offset :: uint32_t

record DebugDefineRow =
  DefineName :: string
  DefineValue :: uint32_t

definition DebugTablesArraySize :: nat where "DebugTablesArraySize = 5"
definition DebugGlobalsArraySize :: nat where "DebugGlobalsArraySize = 50"
definition DebugTypesArraySize :: nat where "DebugTypesArraySize = 100"
definition DebugFieldsArraySize :: nat where "DebugFieldsArraySize = 200"
definition DebugBasesArraySize :: nat where "DebugBasesArraySize = 100"
definition DebugDefinesArraySize :: nat where "DebugDefinesArraySize = 50"

record ClrDebugHeader =
  Cookie :: "uint8_t list"
  MajorVersion :: uint16_t
  MinorVersion :: uint16_t
  DebugTables :: addr
  DebugTableCount :: uint32_t

text \<open>The default member initialisers of \<open>struct ClrDebugHeader\<close>.\<close>

definition ClrDebugHeader_init :: ClrDebugHeader where
  "ClrDebugHeader_init =
     \<lparr>Cookie = [0x20, 0x43, 0x44, 0x48], MajorVersion = 2, MinorVersion = 0,
      DebugTables = Addr_s_DebugTables, DebugTableCount = 0\<rparr>"

subsection \<open>What the compiler and the build supply\<close>

text \<open>
  \<open>sizeof\<close>, \<open>offsetof\<close> and the values of the constants recorded by
  \<open>MAKE_DEFINE_ENTRY\<close> come from the runtime's type declarations, which are outside
  this file; they are parameters. \<open>sizeof\<close> and \<open>offsetof\<close> have type \<open>size_t\<close>, a
  word whose width \<open>'a\<close> is the target's; a row keeps their low 32 bits.

  Modelled from the spec: the \<open>ASSERT\<close> macro is declared outside this file. The
  specification describes it as a debug-only assertion: where it is compiled in, a
  false condition aborts the process; in a release build it expands to nothing. The
  field \<open>ASSERT_enabled\<close> says which build is meant. \<open>FEATURE_EH_FUNCLETS\<close> says whether
  that preprocessor symbol is defined.

  \<open>MAKE_TYPE_ENTRY\<close>, \<open>MAKE_FIELD_ENTRY\<close> and \<open>MAKE_BASE_TYPE_ENTRY\<close> pass their
  arguments on to a second macro, so the preprocessor expands an argument that is
  itself an object-like macro before the inner macro turns it into a string; where the
  argument is pasted to \<open>TypeId\<close> with \<open>##\<close> it stays as spelled. Which names are macros
  is decided by the runtime's headers: \<open>macro_expansion\<close> gives the expanded spelling of
  an argument, and is the identity on a name that is not a macro.
\<close>

record (overloaded) 'a target =
  ASSERT_enabled :: bool
  FEATURE_EH_FUNCLETS :: bool
  sizeof :: "string \<Rightarrow> 'a word"
  offsetof :: "string \<Rightarrow> string \<Rightarrow> 'a word"
  value_of :: "string \<Rightarrow> uint32_t"
  macro_expansion :: "string \<Rightarrow> string"

subsection \<open>Program state\<close>

datatype counter =
    currentTablePos_var
  | currentGlobalPos_var
  | currentTypePos_var
  | currentBasePos_var
  | currentFieldPos_var
  | currentDefinePos_var

text \<open>
  The static arrays, the header and the local variables of
  \<open>PopulateClrDebugHeaders\<close>. An array cell that was never written is \<open>None\<close> (static
  storage is zero-initialised). \<open>TypeIds\<close> holds the local variables that
  \<open>MAKE_TYPE_ENTRY_WITH_ID\<close> declares, most recent first. C++ does not check array
  bounds: a store at an index beyond the end of an array goes to whatever memory
  follows it. The model leaves the array as it is and records the store in \<open>stray\<close>.
\<close>

record state =
  s_DebugTables :: "DebugTable option list"
  s_DebugGlobals :: "DebugGlobalRow option list"
  s_DebugTypes :: "DebugTypeRow option list"
  s_DebugFields :: "DebugMemberOffsetRow option list"
  s_DebugBases :: "DebugMemberOffsetRow option list"
  s_DebugDefines :: "DebugDefineRow option list"
  Header :: ClrDebugHeader
  currentTablePos :: uint32_t
  currentGlobalPos :: uint32_t
  currentTypePos :: uint32_t
  currentBasePos :: uint32_t
  currentFieldPos :: uint32_t
  currentDefinePos :: uint32_t
  TypeIds :: "(string \<times> uint32_t) list"
  stray :: "(addr \<times> nat) list"

definition initial_state :: state where
  "initial_state =
     \<lparr>s_DebugTables = replicate DebugTablesArraySize None,
      s_DebugGlobals = replicate DebugGlobalsArraySize None,
      s_DebugTypes = replicate DebugTypesArraySize None,
      s_DebugFields = replicate DebugFieldsArraySize None,
      s_DebugBases = replicate DebugBasesArraySize None,
      s_DebugDefines = replicate DebugDefinesArraySize None,
      Header = ClrDebugHeader_init,
      currentTablePos = 0, currentGlobalPos = 0, currentTypePos = 0,
      currentBasePos = 0, currentFieldPos = 0, currentDefinePos = 0,
      TypeIds = [], stray = []\<rparr>"

fun counter_value :: "state \<Rightarrow> counter \<Rightarrow> uint32_t" where
  "counter_value s currentTablePos_var = currentTablePos s"
| "counter_value s currentGlobalPos_var = currentGlobalPos s"
| "counter_value s currentTypePos_var = currentTypePos s"
| "counter_value s currentBasePos_var = currentBasePos s"
| "counter_value s currentFieldPos_var = currentFieldPos s"
| "counter_value s currentDefinePos_var = currentDefinePos s"

subsection \<open>The macros\<close>

datatype fault =
    AssertFailed counter
  | Undeclared string
  | Redeclared string

datatype stmt =
    MAKE_GLOBAL_ENTRY string
  | MAKE_TYPE_ENTRY_WITH_ID string string
  | MAKE_BASE_TYPE_ENTRY_WITH_ID string string string string
  | MAKE_FIELD_ENTRY_WITH_ID string string string
  | MAKE_DEFINE_ENTRY string string
  | MAKE_TABLE string addr counter
  | SET_DebugTableCount

text \<open>
  The three macros that paste \<open>TypeId\<close> onto the type's name and hand their other
  arguments, macro-expanded, to the macros above.
\<close>

definition MAKE_TYPE_ENTRY :: "'a target \<Rightarrow> string \<Rightarrow> stmt" where
  "MAKE_TYPE_ENTRY t T = MAKE_TYPE_ENTRY_WITH_ID (macro_expansion t T) (T @ ''TypeId'')"

definition MAKE_BASE_TYPE_ENTRY :: "'a target \<Rightarrow> string \<Rightarrow> string \<Rightarrow> string \<Rightarrow> stmt" where
  "MAKE_BASE_TYPE_ENTRY t T B F =
     MAKE_BASE_TYPE_ENTRY_WITH_ID (macro_expansion t T) (T @ ''TypeId'')
       (macro_expansion t B) (macro_expansion t F)"

definition MAKE_FIELD_ENTRY :: "'a target \<Rightarrow> string \<Rightarrow> string \<Rightarrow> stmt" where
  "MAKE_FIELD_ENTRY t T F =
     MAKE_FIELD_ENTRY_WITH_ID (macro_expansion t T) (T @ ''TypeId'') (macro_expansion t F)"

definition baseoffset :: "'a::len target \<Rightarrow> string \<Rightarrow> string \<Rightarrow> string \<Rightarrow> 'a word" where
  "baseoffset t T B F = offsetof t T F - offsetof t B F"

text \<open>
  \<open>a[i] = r\<close> on an array of \<open>length a\<close> cells: inside the array the cell is replaced;
  beyond it the array is untouched and the store is logged.
\<close>

definition store_row :: "'r option list \<Rightarrow> uint32_t \<Rightarrow> 'r \<Rightarrow> 'r option list" where
  "store_row a i r = (if unat i < length a then a[unat i := Some r] else a)"

definition stray_store :: "addr \<Rightarrow> 'r option list \<Rightarrow> uint32_t \<Rightarrow> (addr \<times> nat) list \<Rightarrow> (addr \<times> nat) list" where
  "stray_store p a i log = (if unat i < length a then log else log @ [(p, unat i)])"

definition ASSERT :: "'a target \<Rightarrow> counter \<Rightarrow> nat \<Rightarrow> state \<Rightarrow> fault + state" where
  "ASSERT t c n s =
     (if ASSERT_enabled t \<and> \<not> unat (counter_value s c) \<le> n then Inl (AssertFailed c) else Inr s)"

text \<open>
  One macro invocation. An identifier used as \<open>TypeIdName\<close> that no earlier
  \<open>MAKE_TYPE_ENTRY_WITH_ID\<close> declared, or one declared twice, is rejected by the C++
  compiler; the model returns \<open>Undeclared\<close> or \<open>Redeclared\<close>.
\<close>

fun exec :: "'a::len target \<Rightarrow> stmt \<Rightarrow> state \<Rightarrow> fault + state" where
  "exec t (MAKE_GLOBAL_ENTRY Name) s =
     (let s1 = s\<lparr>s_DebugGlobals :=
                   store_row (s_DebugGlobals s) (currentGlobalPos s)
                     \<lparr>GlobalName = Name, Address = Addr_of Name\<rparr>,
                 stray := stray_store Addr_s_DebugGlobals (s_DebugGlobals s) (currentGlobalPos s) (stray s)\<rparr>;
          s2 = s1\<lparr>currentGlobalPos := currentGlobalPos s1 + 1\<rparr>
      in ASSERT t currentGlobalPos_var DebugGlobalsArraySize s2)"
| "exec t (MAKE_TYPE_ENTRY_WITH_ID T TypeIdName) s =
     (case map_of (TypeIds s) TypeIdName of
        Some _ \<Rightarrow> Inl (Redeclared TypeIdName)
      | None \<Rightarrow>
         (let s0 = s\<lparr>TypeIds := (TypeIdName, currentTypePos s) # TypeIds s\<rparr>;
              s1 = s0\<lparr>s_DebugTypes :=
                       store_row (s_DebugTypes s0) (currentTypePos s0)
                         \<lparr>TypeName = T, Size = ucast (sizeof t T)\<rparr>,
                     stray := stray_store Addr_s_DebugTypes (s_DebugTypes s0) (currentTypePos s0) (stray s0)\<rparr>;
              s2 = s1\<lparr>currentTypePos := currentTypePos s1 + 1\<rparr>
          in ASSERT t currentTypePos_var DebugTypesArraySize s2))"
| "exec t (MAKE_BASE_TYPE_ENTRY_WITH_ID T TypeIdName BaseType FieldName) s =
     (case map_of (TypeIds s) TypeIdName of
        None \<Rightarrow> Inl (Undeclared TypeIdName)
      | Some tid \<Rightarrow>
         (let s1 = s\<lparr>s_DebugBases :=
                       store_row (s_DebugBases s) (currentBasePos s)
                         \<lparr>MemberName = BaseType, TypeId = tid,
                          Offset = ucast (baseoffset t T BaseType FieldName)\<rparr>,
                     stray := stray_store Addr_s_DebugBases (s_DebugBases s) (currentBasePos s) (stray s)\<rparr>;
              s2 = s1\<lparr>currentBasePos := currentBasePos s1 + 1\<rparr>
          in ASSERT t currentBasePos_var DebugBasesArraySize s2))"
| "exec t (MAKE_FIELD_ENTRY_WITH_ID T TypeIdName FieldName) s =
     (case map_of (TypeIds s) TypeIdName of
        None \<Rightarrow> Inl (Undeclared TypeIdName)
      | Some tid \<Rightarrow>
         (let s1 = s\<lparr>s_DebugFields :=
                       store_row (s_DebugFields s) (currentFieldPos s)
                         \<lparr>MemberName = FieldName, TypeId = tid,
                          Offset = ucast (offsetof t T FieldName)\<rparr>,
                     stray := stray_store Addr_s_DebugFields (s_DebugFields s) (currentFieldPos s) (stray s)\<rparr>;
              s2 = s1\<lparr>currentFieldPos := currentFieldPos s1 + 1\<rparr>
          in ASSERT t currentFieldPos_var DebugFieldsArraySize s2))"
| "exec t (MAKE_DEFINE_ENTRY Name Value) s =
     (let s1 = s\<lparr>s_DebugDefines :=
                   store_row (s_DebugDefines s) (currentDefinePos s)
                     \<lparr>DefineName = Name, DefineValue = value_of t Value\<rparr>,
                 stray := stray_store Addr_s_DebugDefines (s_DebugDefines s) (currentDefinePos s) (stray s)\<rparr>;
          s2 = s1\<lparr>currentDefinePos := currentDefinePos s1 + 1\<rparr>
      in ASSERT t currentDefinePos_var DebugDefinesArraySize s2)"
| "exec t (MAKE_TABLE Name TableAddress TableCount) s =
     (let s1 = s\<lparr>s_DebugTables :=
                   store_row (s_DebugTables s) (currentTablePos s)
                     \<lparr>TableName = Name, TableElements = TableAddress,
                      RowCount = counter_value s TableCount\<rparr>,
                 stray := stray_store Addr_s_DebugTables (s_DebugTables s) (currentTablePos s) (stray s)\<rparr>;
          s2 = s1\<lparr>currentTablePos := currentTablePos s1 + 1\<rparr>
      in ASSERT t currentTablePos_var DebugTablesArraySize s2)"
| "exec t SET_DebugTableCount s =
     Inr (s\<lparr>Header := (Header s)\<lparr>DebugTableCount := currentTablePos s\<rparr>\<rparr>)"

text \<open>A sequence of statements stops at the first fault.\<close>

fun run :: "'a::len target \<Rightarrow> stmt list \<Rightarrow> state \<Rightarrow> fault + state" where
  "run t [] s = Inr s"
| "run t (x # xs) s = (case exec t x s of Inl e \<Rightarrow> Inl e | Inr s' \<Rightarrow> run t xs s')"

subsection \<open>The body of PopulateClrDebugHeaders\<close>

text \<open>The registrations, in source order, cut at blank lines of the source.\<close>


text \<open>Lines 483 to 487: the directory.\<close>

definition make_tables :: "stmt list" where
  "make_tables =
     [MAKE_TABLE ''Global'' Addr_s_DebugGlobals currentGlobalPos_var,
      MAKE_TABLE ''Type'' Addr_s_DebugTypes currentTypePos_var,
      MAKE_TABLE ''Field'' Addr_s_DebugFields currentFieldPos_var,
      MAKE_TABLE ''Base'' Addr_s_DebugBases currentBasePos_var,
      MAKE_TABLE ''Define'' Addr_s_DebugDefines currentDefinePos_var]"

definition lines_180_255 :: "'a target \<Rightarrow> stmt list" where
  "lines_180_255 t =
    [MAKE_GLOBAL_ENTRY ''ThreadStore::s_pThreadStore'',
     MAKE_TYPE_ENTRY t ''ThreadStore'',
     MAKE_FIELD_ENTRY t ''ThreadStore'' ''m_ThreadList'',
     MAKE_TYPE_ENTRY t ''Thread'',
     MAKE_FIELD_ENTRY t ''Thread'' ''m_Link'',
     MAKE_FIELD_ENTRY t ''Thread'' ''m_ThreadId'',
     MAKE_FIELD_ENTRY t ''Thread'' ''m_OSThreadId'',
     MAKE_FIELD_ENTRY t ''Thread'' ''m_LastThrownObjectHandle'',
     MAKE_FIELD_ENTRY t ''Thread'' ''m_alloc_context'',
     MAKE_TYPE_ENTRY t ''MethodTable'',
     MAKE_FIELD_ENTRY t ''MethodTable'' ''m_dwFlags'',
     MAKE_FIELD_ENTRY t ''MethodTable'' ''m_wFlags2'',
     MAKE_FIELD_ENTRY t ''MethodTable'' ''m_BaseSize'',
     MAKE_FIELD_ENTRY t ''MethodTable'' ''m_wToken'',
     MAKE_FIELD_ENTRY t ''MethodTable'' ''m_wNumVirtuals'',
     MAKE_FIELD_ENTRY t ''MethodTable'' ''m_wNumInterfaces'',
     MAKE_FIELD_ENTRY t ''MethodTable'' ''m_pParentMethodTable'',
     MAKE_FIELD_ENTRY t ''MethodTable'' ''m_pLoaderModule'',
     MAKE_FIELD_ENTRY t ''MethodTable'' ''m_pWriteableData'',
     MAKE_FIELD_ENTRY t ''MethodTable'' ''m_pCanonMT'',
     MAKE_FIELD_ENTRY t ''MethodTable'' ''m_pEEClass'',
     MAKE_FIELD_ENTRY t ''MethodTable'' ''m_pPerInstInfo'',
     MAKE_FIELD_ENTRY t ''MethodTable'' ''m_ElementTypeHnd'',
     MAKE_FIELD_ENTRY t ''MethodTable'' ''m_pMultipurposeSlot1'',
     MAKE_FIELD_ENTRY t ''MethodTable'' ''m_pInterfaceMap'',
     MAKE_FIELD_ENTRY t ''MethodTable'' ''m_pMultipurposeSlot2'',
     MAKE_TYPE_ENTRY t ''MethodDesc'',
     MAKE_FIELD_ENTRY t ''MethodDesc'' ''m_chunkIndex'',
     MAKE_FIELD_ENTRY t ''MethodDesc'' ''m_wFlags'',
     MAKE_FIELD_ENTRY t ''MethodDesc'' ''m_bFlags2'',
     MAKE_FIELD_ENTRY t ''MethodDesc'' ''m_wFlags3AndTokenRemainder'',
     MAKE_FIELD_ENTRY t ''MethodDesc'' ''m_wSlotNumber'',
     MAKE_TYPE_ENTRY t ''FCallMethodDesc'',
     MAKE_BASE_TYPE_ENTRY t ''FCallMethodDesc'' ''MethodDesc'' ''m_chunkIndex'',
     MAKE_TYPE_ENTRY t ''NDirectMethodDesc'',
     MAKE_BASE_TYPE_ENTRY t ''NDirectMethodDesc'' ''MethodDesc'' ''m_chunkIndex'',
     MAKE_TYPE_ENTRY t ''EEImplMethodDesc'',
     MAKE_BASE_TYPE_ENTRY t ''EEImplMethodDesc'' ''MethodDesc'' ''m_chunkIndex'',
     MAKE_TYPE_ENTRY t ''ArrayMethodDesc'',
     MAKE_BASE_TYPE_ENTRY t ''ArrayMethodDesc'' ''MethodDesc'' ''m_chunkIndex'',
     MAKE_TYPE_ENTRY t ''InstantiatedMethodDesc'',
     MAKE_BASE_TYPE_ENTRY t ''InstantiatedMethodDesc'' ''MethodDesc'' ''m_chunkIndex'',
     MAKE_TYPE_ENTRY t ''DynamicMethodDesc'',
     MAKE_BASE_TYPE_ENTRY t ''DynamicMethodDesc'' ''MethodDesc'' ''m_chunkIndex'',
     MAKE_TYPE_ENTRY t ''MethodDescChunk'',
     MAKE_FIELD_ENTRY t ''MethodDescChunk'' ''m_methodTable'',
     MAKE_FIELD_ENTRY t ''MethodDescChunk'' ''m_next'',
     MAKE_FIELD_ENTRY t ''MethodDescChunk'' ''m_size'',
     MAKE_FIELD_ENTRY t ''MethodDescChunk'' ''m_count'',
     MAKE_FIELD_ENTRY t ''MethodDescChunk'' ''m_flagsAndTokenRange'',
     MAKE_TYPE_ENTRY t ''MethodImpl'',
     MAKE_TYPE_ENTRY t ''TypeDesc'',
     MAKE_FIELD_ENTRY t ''TypeDesc'' ''m_typeAndFlags'',
     MAKE_TYPE_ENTRY t ''ParamTypeDesc'',
     MAKE_BASE_TYPE_ENTRY t ''ParamTypeDesc'' ''TypeDesc'' ''m_typeAndFlags'',
     MAKE_FIELD_ENTRY t ''ParamTypeDesc'' ''m_Arg'',
     MAKE_TYPE_ENTRY t ''GenericsDictInfo'',
     MAKE_FIELD_ENTRY t ''GenericsDictInfo'' ''m_wNumDicts'',
     MAKE_FIELD_ENTRY t ''GenericsDictInfo'' ''m_wNumTyPars'',
     MAKE_TYPE_ENTRY t ''MethodTableWriteableData'',
     MAKE_FIELD_ENTRY t ''MethodTableWriteableData'' ''m_dwFlags'']"

definition lines_257_335 :: "'a target \<Rightarrow> stmt list" where
  "lines_257_335 t =
    [MAKE_TYPE_ENTRY t ''Module'',
     MAKE_FIELD_ENTRY t ''Module'' ''m_pAssembly'',
     MAKE_FIELD_ENTRY t ''Module'' ''m_pSimpleName'',
     MAKE_FIELD_ENTRY t ''Module'' ''m_pPEAssembly'',
     MAKE_FIELD_ENTRY t ''Module'' ''m_pReadyToRunInfo'',
     MAKE_FIELD_ENTRY t ''Module'' ''m_TypeDefToMethodTableMap'',
     MAKE_FIELD_ENTRY t ''Module'' ''m_MethodDefToDescMap'',
     MAKE_TYPE_ENTRY t ''PEAssembly'',
     MAKE_FIELD_ENTRY t ''PEAssembly'' ''m_pMDImport'',
     MAKE_FIELD_ENTRY t ''PEAssembly'' ''m_PEImage'',
     MAKE_TYPE_ENTRY t ''PEImage'',
     MAKE_FIELD_ENTRY t ''PEImage'' ''m_path'',
     MAKE_FIELD_ENTRY t ''PEImage'' ''m_pLayouts'',
     MAKE_FIELD_ENTRY t ''PEImage'' ''m_sModuleFileNameHintUsedByDac'',
     MAKE_DEFINE_ENTRY ''IMAGE_FLAT'' ''PEImage::IMAGE_FLAT'',
     MAKE_DEFINE_ENTRY ''IMAGE_LOADED'' ''PEImage::IMAGE_LOADED'',
     MAKE_DEFINE_ENTRY ''IMAGE_COUNT'' ''PEImage::IMAGE_COUNT'',
     MAKE_TYPE_ENTRY t ''PEDecoder'',
     MAKE_FIELD_ENTRY t ''PEDecoder'' ''m_base'',
     MAKE_FIELD_ENTRY t ''PEDecoder'' ''m_size'',
     MAKE_FIELD_ENTRY t ''PEDecoder'' ''m_flags'',
     MAKE_TYPE_ENTRY t ''PEImageLayout'',
     MAKE_BASE_TYPE_ENTRY t ''PEImageLayout'' ''PEDecoder'' ''m_base'',
     MAKE_TYPE_ENTRY t ''EEClass'',
     MAKE_FIELD_ENTRY t ''EEClass'' ''m_fFieldsArePacked'',
     MAKE_FIELD_ENTRY t ''EEClass'' ''m_cbFixedEEClassFields'',
     MAKE_TYPE_ENTRY t ''ArrayClass'',
     MAKE_FIELD_ENTRY t ''ArrayClass'' ''m_rank'',
     MAKE_FIELD_ENTRY t ''ArrayClass'' ''m_ElementType'',
     MAKE_TYPE_ENTRY t ''LoaderHeap'',
     MAKE_TYPE_ENTRY t ''LoaderAllocator'',
     MAKE_FIELD_ENTRY t ''LoaderAllocator'' ''m_pLowFrequencyHeap'',
     MAKE_FIELD_ENTRY t ''LoaderAllocator'' ''m_pHighFrequencyHeap'',
     MAKE_FIELD_ENTRY t ''LoaderAllocator'' ''m_pStubHeap'',
     MAKE_TYPE_ENTRY t ''GlobalLoaderAllocator'',
     MAKE_BASE_TYPE_ENTRY t ''GlobalLoaderAllocator'' ''LoaderAllocator'' ''m_pLowFrequencyHeap'',
     MAKE_TYPE_ENTRY t ''LookupMapBase'',
     MAKE_FIELD_ENTRY t ''LookupMapBase'' ''pNext'',
     MAKE_FIELD_ENTRY t ''LookupMapBase'' ''pTable'',
     MAKE_FIELD_ENTRY t ''LookupMapBase'' ''dwCount'',
     MAKE_FIELD_ENTRY t ''LookupMapBase'' ''supportedFlags'',
     MAKE_TYPE_ENTRY_WITH_ID ''LookupMap<MethodDesc *>'' ''LookupMap_MethodDesc_Ptr'',
     MAKE_BASE_TYPE_ENTRY_WITH_ID ''LookupMap<MethodDesc *>'' ''LookupMap_MethodDesc_Ptr'' ''LookupMapBase'' ''pNext'',
     MAKE_TYPE_ENTRY t ''Bucket'',
     MAKE_FIELD_ENTRY t ''Bucket'' ''m_rgKeys'',
     MAKE_FIELD_ENTRY t ''Bucket'' ''m_rgValues'',
     MAKE_TYPE_ENTRY t ''HashMap'',
     MAKE_FIELD_ENTRY t ''HashMap'' ''m_rgBuckets'',
     MAKE_TYPE_ENTRY t ''PtrHashMap'',
     MAKE_FIELD_ENTRY t ''PtrHashMap'' ''m_HashMap'',
     MAKE_GLOBAL_ENTRY ''AppDomain::m_pTheAppDomain'',
     MAKE_TYPE_ENTRY t ''AppDomain'',
     MAKE_FIELD_ENTRY t ''AppDomain'' ''m_Assemblies'',
     MAKE_FIELD_ENTRY t ''AppDomain'' ''m_Stage.m_val'',
     MAKE_FIELD_ENTRY t ''AppDomain'' ''m_friendlyName'',
     MAKE_GLOBAL_ENTRY ''SystemDomain::m_pSystemDomain'',
     MAKE_TYPE_ENTRY t ''SystemDomain'',
     MAKE_FIELD_ENTRY t ''SystemDomain'' ''m_pSystemAssembly'',
     MAKE_FIELD_ENTRY t ''SystemDomain'' ''m_GlobalAllocator'',
     MAKE_TYPE_ENTRY_WITH_ID ''AppDomain::DomainAssemblyList'' ''AppDomain_DomainAssemblyList'',
     MAKE_FIELD_ENTRY_WITH_ID ''AppDomain::DomainAssemblyList'' ''AppDomain_DomainAssemblyList'' ''m_array'']"

definition lines_337_405 :: "'a target \<Rightarrow> stmt list" where
  "lines_337_405 t =
    [MAKE_TYPE_ENTRY t ''DomainAssembly'',
     MAKE_FIELD_ENTRY t ''DomainAssembly'' ''m_pAssembly'',
     MAKE_TYPE_ENTRY t ''ArrayListBase'',
     MAKE_FIELD_ENTRY t ''ArrayListBase'' ''m_count'',
     MAKE_FIELD_ENTRY t ''ArrayListBase'' ''m_firstBlock'',
     MAKE_TYPE_ENTRY t ''ArrayList'',
     MAKE_BASE_TYPE_ENTRY t ''ArrayList'' ''ArrayListBase'' ''m_count'',
     MAKE_TYPE_ENTRY t ''Dictionary'',
     MAKE_FIELD_ENTRY t ''Dictionary'' ''m_pEntries'',
     MAKE_TYPE_ENTRY_WITH_ID ''ArrayListBase::ArrayListBlock'' ''ArrayListBase_ArrayListBlock'',
     MAKE_FIELD_ENTRY_WITH_ID ''ArrayListBase::ArrayListBlock'' ''ArrayListBase_ArrayListBlock'' ''m_next'',
     MAKE_FIELD_ENTRY_WITH_ID ''ArrayListBase::ArrayListBlock'' ''ArrayListBase_ArrayListBlock'' ''m_blockSize'',
     MAKE_FIELD_ENTRY_WITH_ID ''ArrayListBase::ArrayListBlock'' ''ArrayListBase_ArrayListBlock'' ''m_array'',
     MAKE_TYPE_ENTRY t ''Assembly'',
     MAKE_FIELD_ENTRY t ''Assembly'' ''m_pPEAssembly'',
     MAKE_FIELD_ENTRY t ''Assembly'' ''m_pModule'',
     MAKE_FIELD_ENTRY t ''Assembly'' ''m_pClassLoader'',
     MAKE_TYPE_ENTRY t ''ClassLoader'',
     MAKE_TYPE_ENTRY t ''ReadyToRunInfo'',
     MAKE_FIELD_ENTRY t ''ReadyToRunInfo'' ''m_nRuntimeFunctions'',
     MAKE_FIELD_ENTRY t ''ReadyToRunInfo'' ''m_pRuntimeFunctions'',
     MAKE_FIELD_ENTRY t ''ReadyToRunInfo'' ''m_pCompositeInfo'',
     MAKE_FIELD_ENTRY t ''ReadyToRunInfo'' ''m_entryPointToMethodDescMap'',
     MAKE_TYPE_ENTRY t ''RUNTIME_FUNCTION'',
     MAKE_FIELD_ENTRY t ''RUNTIME_FUNCTION'' ''BeginAddress'',
     MAKE_FIELD_ENTRY t ''RUNTIME_FUNCTION'' ''EndAddress'',
     MAKE_FIELD_ENTRY t ''RUNTIME_FUNCTION'' ''UnwindData'',
     MAKE_GLOBAL_ENTRY ''g_gcDacGlobals'',
     MAKE_GLOBAL_ENTRY ''g_pFreeObjectMethodTable'',
     MAKE_TYPE_ENTRY t ''GcDacVars'',
     MAKE_FIELD_ENTRY t ''GcDacVars'' ''major_version_number'',
     MAKE_FIELD_ENTRY t ''GcDacVars'' ''minor_version_number'',
     MAKE_FIELD_ENTRY t ''GcDacVars'' ''generation_size'',
     MAKE_FIELD_ENTRY t ''GcDacVars'' ''total_generation_count'',
     MAKE_FIELD_ENTRY t ''GcDacVars'' ''built_with_svr'',
     MAKE_FIELD_ENTRY t ''GcDacVars'' ''finalize_queue'',
     MAKE_FIELD_ENTRY t ''GcDacVars'' ''generation_table'',
     MAKE_FIELD_ENTRY t ''GcDacVars'' ''ephemeral_heap_segment'',
     MAKE_FIELD_ENTRY t ''GcDacVars'' ''alloc_allocated'',
     MAKE_FIELD_ENTRY t ''GcDacVars'' ''n_heaps'',
     MAKE_FIELD_ENTRY t ''GcDacVars'' ''g_heaps'',
     MAKE_TYPE_ENTRY t ''dac_gc_heap'',
     MAKE_FIELD_ENTRY t ''dac_gc_heap'' ''alloc_allocated'',
     MAKE_FIELD_ENTRY t ''dac_gc_heap'' ''ephemeral_heap_segment'',
     MAKE_FIELD_ENTRY t ''dac_gc_heap'' ''finalize_queue'',
     MAKE_FIELD_ENTRY t ''dac_gc_heap'' ''generation_table'',
     MAKE_TYPE_ENTRY t ''gc_alloc_context'',
     MAKE_FIELD_ENTRY t ''gc_alloc_context'' ''alloc_ptr'',
     MAKE_FIELD_ENTRY t ''gc_alloc_context'' ''alloc_limit'',
     MAKE_FIELD_ENTRY t ''gc_alloc_context'' ''alloc_bytes'',
     MAKE_FIELD_ENTRY t ''gc_alloc_context'' ''alloc_bytes_uoh'',
     MAKE_FIELD_ENTRY t ''gc_alloc_context'' ''alloc_count'',
     MAKE_TYPE_ENTRY t ''dac_generation'',
     MAKE_FIELD_ENTRY t ''dac_generation'' ''allocation_context'',
     MAKE_FIELD_ENTRY t ''dac_generation'' ''start_segment'',
     MAKE_FIELD_ENTRY t ''dac_generation'' ''allocation_start'']"

definition lines_407_475 :: "'a target \<Rightarrow> stmt list" where
  "lines_407_475 t =
    [MAKE_TYPE_ENTRY t ''dac_heap_segment'',
     MAKE_FIELD_ENTRY t ''dac_heap_segment'' ''allocated'',
     MAKE_FIELD_ENTRY t ''dac_heap_segment'' ''committed'',
     MAKE_FIELD_ENTRY t ''dac_heap_segment'' ''reserved'',
     MAKE_FIELD_ENTRY t ''dac_heap_segment'' ''used'',
     MAKE_FIELD_ENTRY t ''dac_heap_segment'' ''mem'',
     MAKE_FIELD_ENTRY t ''dac_heap_segment'' ''flags'',
     MAKE_FIELD_ENTRY t ''dac_heap_segment'' ''next'',
     MAKE_FIELD_ENTRY t ''dac_heap_segment'' ''background_allocated'',
     MAKE_FIELD_ENTRY t ''dac_heap_segment'' ''heap'',
     MAKE_TYPE_ENTRY t ''SBuffer'',
     MAKE_FIELD_ENTRY t ''SBuffer'' ''m_size'',
     MAKE_FIELD_ENTRY t ''SBuffer'' ''m_flags'',
     MAKE_FIELD_ENTRY t ''SBuffer'' ''m_buffer'',
     MAKE_TYPE_ENTRY t ''SString'',
     MAKE_BASE_TYPE_ENTRY t ''SString'' ''SBuffer'' ''m_size'',
     MAKE_TYPE_ENTRY t ''HeapList'',
     MAKE_FIELD_ENTRY t ''HeapList'' ''hpNext'',
     MAKE_FIELD_ENTRY t ''HeapList'' ''startAddress'',
     MAKE_FIELD_ENTRY t ''HeapList'' ''endAddress'',
     MAKE_FIELD_ENTRY t ''HeapList'' ''mapBase'',
     MAKE_FIELD_ENTRY t ''HeapList'' ''pHdrMap'',
     MAKE_TYPE_ENTRY t ''Object'',
     MAKE_FIELD_ENTRY t ''Object'' ''m_pMethTab'',
     MAKE_TYPE_ENTRY t ''ExceptionObject'',
     MAKE_BASE_TYPE_ENTRY t ''ExceptionObject'' ''Object'' ''m_pMethTab'',
     MAKE_FIELD_ENTRY t ''ExceptionObject'' ''_message'',
     MAKE_FIELD_ENTRY t ''ExceptionObject'' ''_innerException'',
     MAKE_FIELD_ENTRY t ''ExceptionObject'' ''_stackTrace'',
     MAKE_TYPE_ENTRY t ''StringObject'',
     MAKE_BASE_TYPE_ENTRY t ''StringObject'' ''Object'' ''m_pMethTab'',
     MAKE_FIELD_ENTRY t ''StringObject'' ''m_StringLength'',
     MAKE_TYPE_ENTRY t ''ArrayBase'',
     MAKE_BASE_TYPE_ENTRY t ''ArrayBase'' ''Object'' ''m_pMethTab'',
     MAKE_FIELD_ENTRY t ''ArrayBase'' ''m_NumComponents'',
     MAKE_TYPE_ENTRY_WITH_ID ''StackTraceArray::ArrayHeader'' ''StackTraceArray_ArrayHeader'',
     MAKE_FIELD_ENTRY_WITH_ID ''StackTraceArray::ArrayHeader'' ''StackTraceArray_ArrayHeader'' ''m_size'',
     MAKE_FIELD_ENTRY_WITH_ID ''StackTraceArray::ArrayHeader'' ''StackTraceArray_ArrayHeader'' ''m_thread'',
     MAKE_TYPE_ENTRY t ''StackTraceElement'',
     MAKE_FIELD_ENTRY t ''StackTraceElement'' ''ip'',
     MAKE_FIELD_ENTRY t ''StackTraceElement'' ''sp'',
     MAKE_FIELD_ENTRY t ''StackTraceElement'' ''pFunc'',
     MAKE_FIELD_ENTRY t ''StackTraceElement'' ''flags'',
     MAKE_TYPE_ENTRY t ''_hpRealCodeHdr'',
     MAKE_FIELD_ENTRY t ''_hpRealCodeHdr'' ''phdrDebugInfo'',
     MAKE_FIELD_ENTRY t ''_hpRealCodeHdr'' ''phdrJitEHInfo'',
     MAKE_FIELD_ENTRY t ''_hpRealCodeHdr'' ''phdrJitGCInfo'',
     MAKE_FIELD_ENTRY t ''_hpRealCodeHdr'' ''phdrMDesc'',
     MAKE_FIELD_ENTRY t ''_hpRealCodeHdr'' ''unwindInfos'',
     MAKE_GLOBAL_ENTRY ''ExecutionManager::m_pEEJitManager'',
     MAKE_TYPE_ENTRY t ''EEJitManager'',
     MAKE_GLOBAL_ENTRY ''ExecutionManager::g_codeRangeMap'',
     MAKE_TYPE_ENTRY t ''RangeSectionMapData'',
     MAKE_FIELD_ENTRY t ''RangeSectionMapData'' ''Data'',
     MAKE_GLOBAL_ENTRY ''ExecutionManager::m_pReadyToRunJitManager'',
     MAKE_TYPE_ENTRY t ''ReadyToRunJitManager'']"

text \<open>Lines 477 to 481, with the conditional entry.\<close>

definition lines_477_481 :: "'a target \<Rightarrow> stmt list" where
  "lines_477_481 t =
     [MAKE_DEFINE_ENTRY ''MinObjectSize'' ''MIN_OBJECT_SIZE''] @
     (if FEATURE_EH_FUNCLETS t
      then [MAKE_DEFINE_ENTRY ''FEATURE_EH_FUNCLETS'' ''FEATURE_EH_FUNCLETS''] else []) @
     [MAKE_DEFINE_ENTRY ''UNION_METHODTABLE'' ''MethodTable::UNION_METHODTABLE'']"

definition registrations :: "'a target \<Rightarrow> stmt list" where
  "registrations t =
     lines_180_255 t @ lines_257_335 t @ lines_337_405 t @ lines_407_475 t @
     lines_477_481 t"

definition body :: "'a target \<Rightarrow> stmt list" where
  "body t = registrations t @ make_tables @ [SET_DebugTableCount]"

definition PopulateClrDebugHeaders :: "'a::len target \<Rightarrow> fault + state" where
  "PopulateClrDebugHeaders t = run t (body t) initial_state"

text \<open>
  Every state the function passes through in program order, one per statement, the
  entry state first; a fault ends the list. These are the states of the C++ abstract
  machine as the executing thread sees them. The source synchronises nothing (no
  volatile, atomic or fence), so they are not the states a reader outside the thread
  can observe: see the section on emitted stores.
\<close>

fun trace :: "'a::len target \<Rightarrow> stmt list \<Rightarrow> state \<Rightarrow> state list" where
  "trace t [] s = [s]"
| "trace t (x # xs) s = s # (case exec t x s of Inl e \<Rightarrow> [] | Inr s' \<Rightarrow> trace t xs s')"

section \<open>The registrations as the specification counts them\<close>

text \<open>
  The specification speaks of the rows registered in each category, in registration
  order, and of the identifier a type registration returns: its zero-based position
  among the type registrations. The functions below read these off a statement list
  without running it; the theorems compare them with what \<open>run\<close> leaves in the arrays.
\<close>

fun is_registration :: "stmt \<Rightarrow> bool" where
  "is_registration (MAKE_TABLE Name TableAddress TableCount) = False"
| "is_registration SET_DebugTableCount = False"
| "is_registration _ = True"

fun globals_of :: "stmt list \<Rightarrow> DebugGlobalRow list" where
  "globals_of [] = []"
| "globals_of (MAKE_GLOBAL_ENTRY Name # xs) =
     \<lparr>GlobalName = Name, Address = Addr_of Name\<rparr> # globals_of xs"
| "globals_of (_ # xs) = globals_of xs"

fun types_of :: "'a::len target \<Rightarrow> stmt list \<Rightarrow> DebugTypeRow list" where
  "types_of t [] = []"
| "types_of t (MAKE_TYPE_ENTRY_WITH_ID T TypeIdName # xs) =
     \<lparr>TypeName = T, Size = ucast (sizeof t T)\<rparr> # types_of t xs"
| "types_of t (_ # xs) = types_of t xs"

fun defines_of :: "'a target \<Rightarrow> stmt list \<Rightarrow> DebugDefineRow list" where
  "defines_of t [] = []"
| "defines_of t (MAKE_DEFINE_ENTRY Name Value # xs) =
     \<lparr>DefineName = Name, DefineValue = value_of t Value\<rparr> # defines_of t xs"
| "defines_of t (_ # xs) = defines_of t xs"

text \<open>The identifiers declared by the type registrations, in order of declaration.\<close>

fun declared :: "stmt list \<Rightarrow> string list" where
  "declared [] = []"
| "declared (MAKE_TYPE_ENTRY_WITH_ID T TypeIdName # xs) = TypeIdName # declared xs"
| "declared (_ # xs) = declared xs"

fun index_of :: "string list \<Rightarrow> string \<Rightarrow> nat" where
  "index_of [] i = 0"
| "index_of (d # ds) i = (if d = i then 0 else Suc (index_of ds i))"

text \<open>
  Field and base rows: the row's \<open>TypeId\<close> is the position of its identifier among the
  identifiers \<open>ds\<close> declared so far.
\<close>

fun fields_of :: "'a::len target \<Rightarrow> string list \<Rightarrow> stmt list \<Rightarrow> DebugMemberOffsetRow list" where
  "fields_of t ds [] = []"
| "fields_of t ds (MAKE_TYPE_ENTRY_WITH_ID T TypeIdName # xs) = fields_of t (ds @ [TypeIdName]) xs"
| "fields_of t ds (MAKE_FIELD_ENTRY_WITH_ID T TypeIdName FieldName # xs) =
     \<lparr>MemberName = FieldName, TypeId = of_nat (index_of ds TypeIdName),
      Offset = ucast (offsetof t T FieldName)\<rparr> # fields_of t ds xs"
| "fields_of t ds (_ # xs) = fields_of t ds xs"

fun bases_of :: "'a::len target \<Rightarrow> string list \<Rightarrow> stmt list \<Rightarrow> DebugMemberOffsetRow list" where
  "bases_of t ds [] = []"
| "bases_of t ds (MAKE_TYPE_ENTRY_WITH_ID T TypeIdName # xs) = bases_of t (ds @ [TypeIdName]) xs"
| "bases_of t ds (MAKE_BASE_TYPE_ENTRY_WITH_ID T TypeIdName BaseType FieldName # xs) =
     \<lparr>MemberName = BaseType, TypeId = of_nat (index_of ds TypeIdName),
      Offset = ucast (offsetof t T FieldName - offsetof t BaseType FieldName)\<rparr> # bases_of t ds xs"
| "bases_of t ds (_ # xs) = bases_of t ds xs"

text \<open>
  What the C++ compiler checks of the identifiers: none declared twice, each declared
  before it is used.
\<close>

fun well_scoped :: "string list \<Rightarrow> stmt list \<Rightarrow> bool" where
  "well_scoped ds [] = True"
| "well_scoped ds (MAKE_TYPE_ENTRY_WITH_ID T TypeIdName # xs) =
     (TypeIdName \<notin> set ds \<and> well_scoped (ds @ [TypeIdName]) xs)"
| "well_scoped ds (MAKE_FIELD_ENTRY_WITH_ID T TypeIdName FieldName # xs) =
     (TypeIdName \<in> set ds \<and> well_scoped ds xs)"
| "well_scoped ds (MAKE_BASE_TYPE_ENTRY_WITH_ID T TypeIdName BaseType FieldName # xs) =
     (TypeIdName \<in> set ds \<and> well_scoped ds xs)"
| "well_scoped ds (_ # xs) = well_scoped ds xs"

text \<open>Every table filled no further than its array is long.\<close>

definition within_capacity :: "'a::len target \<Rightarrow> stmt list \<Rightarrow> bool" where
  "within_capacity t xs =
     (length (globals_of xs) \<le> DebugGlobalsArraySize \<and>
      length (declared xs) \<le> DebugTypesArraySize \<and>
      length (fields_of t [] xs) \<le> DebugFieldsArraySize \<and>
      length (bases_of t [] xs) \<le> DebugBasesArraySize \<and>
      length (defines_of t xs) \<le> DebugDefinesArraySize)"

text \<open>
  An array of \<open>cap\<close> cells whose first cells hold \<open>rows\<close>, in order, and whose other cells
  were never written.
\<close>

definition filled :: "nat \<Rightarrow> 'r list \<Rightarrow> 'r option list" where
  "filled cap rows = map Some rows @ replicate (cap - length rows) None"

text \<open>
  The directory the specification describes for a list of registrations: five entries,
  in the order Global, Type, Field, Base, Define, each with the address of its array
  and the number of rows registered in its category.
\<close>

definition directory_of :: "'a::len target \<Rightarrow> stmt list \<Rightarrow> DebugTable list" where
  "directory_of t regs =
     [\<lparr>TableName = ''Global'', TableElements = Addr_s_DebugGlobals,
       RowCount = of_nat (length (globals_of regs))\<rparr>,
      \<lparr>TableName = ''Type'', TableElements = Addr_s_DebugTypes,
       RowCount = of_nat (length (types_of t regs))\<rparr>,
      \<lparr>TableName = ''Field'', TableElements = Addr_s_DebugFields,
       RowCount = of_nat (length (fields_of t [] regs))\<rparr>,
      \<lparr>TableName = ''Base'', TableElements = Addr_s_DebugBases,
       RowCount = of_nat (length (bases_of t [] regs))\<rparr>,
      \<lparr>TableName = ''Define'', TableElements = Addr_s_DebugDefines,
       RowCount = of_nat (length (defines_of t regs))\<rparr>]"


section \<open>Emitted stores\<close>

text \<open>
  Every store of \<open>PopulateClrDebugHeaders\<close> to static memory is a plain store: the file
  declares nothing volatile or atomic and issues no fence. C++ then fixes the order of
  the stores only for the executing thread. An implementation may perform two stores
  to different objects in either order, and a reader in another process sees them in
  the order in which they are performed.

  Each statement performs one store to static memory (the position counters are local
  variables). \<open>stores\<close> lists the stores of a statement list in program order, each with
  the location and the value that \<open>exec\<close> writes there.
\<close>

datatype location = Cell addr nat | DebugTableCount_field

datatype content =
    Global_row DebugGlobalRow
  | Type_row DebugTypeRow
  | Member_row DebugMemberOffsetRow
  | Define_row DebugDefineRow
  | Table_row DebugTable
  | Count uint32_t

type_synonym store = "location \<times> content"

fun store_of :: "'a::len target \<Rightarrow> stmt \<Rightarrow> state \<Rightarrow> store list" where
  "store_of t (MAKE_GLOBAL_ENTRY Name) s =
     [(Cell Addr_s_DebugGlobals (unat (currentGlobalPos s)),
       Global_row \<lparr>GlobalName = Name, Address = Addr_of Name\<rparr>)]"
| "store_of t (MAKE_TYPE_ENTRY_WITH_ID T TypeIdName) s =
     (case map_of (TypeIds s) TypeIdName of
        Some _ \<Rightarrow> []
      | None \<Rightarrow>
         [(Cell Addr_s_DebugTypes (unat (currentTypePos s)),
           Type_row \<lparr>TypeName = T, Size = ucast (sizeof t T)\<rparr>)])"
| "store_of t (MAKE_BASE_TYPE_ENTRY_WITH_ID T TypeIdName BaseType FieldName) s =
     (case map_of (TypeIds s) TypeIdName of
        None \<Rightarrow> []
      | Some tid \<Rightarrow>
         [(Cell Addr_s_DebugBases (unat (currentBasePos s)),
           Member_row \<lparr>MemberName = BaseType, TypeId = tid,
                       Offset = ucast (baseoffset t T BaseType FieldName)\<rparr>)])"
| "store_of t (MAKE_FIELD_ENTRY_WITH_ID T TypeIdName FieldName) s =
     (case map_of (TypeIds s) TypeIdName of
        None \<Rightarrow> []
      | Some tid \<Rightarrow>
         [(Cell Addr_s_DebugFields (unat (currentFieldPos s)),
           Member_row \<lparr>MemberName = FieldName, TypeId = tid,
                       Offset = ucast (offsetof t T FieldName)\<rparr>)])"
| "store_of t (MAKE_DEFINE_ENTRY Name Value) s =
     [(Cell Addr_s_DebugDefines (unat (currentDefinePos s)),
       Define_row \<lparr>DefineName = Name, DefineValue = value_of t Value\<rparr>)]"
| "store_of t (MAKE_TABLE Name TableAddress TableCount) s =
     [(Cell Addr_s_DebugTables (unat (currentTablePos s)),
       Table_row \<lparr>TableName = Name, TableElements = TableAddress,
                  RowCount = counter_value s TableCount\<rparr>)]"
| "store_of t SET_DebugTableCount s = [(DebugTableCount_field, Count (currentTablePos s))]"

fun stores :: "'a::len target \<Rightarrow> stmt list \<Rightarrow> state \<Rightarrow> store list" where
  "stores t [] s = []"
| "stores t (x # xs) s =
     store_of t x s @ (case exec t x s of Inl e \<Rightarrow> [] | Inr s' \<Rightarrow> stores t xs s')"

text \<open>
  Static memory as a reader sees it: what each location holds, \<open>None\<close> for a cell that
  is still zero. Before the function runs, only the table count holds a value, 0.
\<close>

type_synonym memory = "location \<Rightarrow> content option"

definition static_memory :: memory where
  "static_memory = (\<lambda>l. None)(DebugTableCount_field \<mapsto> Count 0)"

fun memory_after :: "store list \<Rightarrow> memory \<Rightarrow> memory" where
  "memory_after [] m = m"
| "memory_after (e # es) m = memory_after es (m(fst e \<mapsto> snd e))"

text \<open>
  \<open>emitted es es'\<close>: the stores \<open>es\<close> may be performed in the order \<open>es'\<close>. Every location
  receives the same stores in the same order; stores to different locations may have
  changed places.
\<close>

definition emitted :: "store list \<Rightarrow> store list \<Rightarrow> bool" where
  "emitted es es' =
     (\<forall>l \<in> set (map fst (es @ es')). filter (\<lambda>e. fst e = l) es' = filter (\<lambda>e. fst e = l) es)"

text \<open>The order that performs the last store of a list before the one preceding it.\<close>

definition last_store_early :: "store list \<Rightarrow> store list" where
  "last_store_early es = butlast (butlast es) @ [last es, last (butlast es)]"


section \<open>The executable path of getexepath.h\<close>

text \<open>
  \<open>minipal_getexepath\<close> is one chain of preprocessor conditionals; each branch asks the
  operating system and returns a heap string or \<open>NULL\<close>. The preprocessor symbols are the
  fields of \<open>config\<close>, tested in the order of the source. What the operating system
  answers is the record \<open>os_calls\<close>: a call that fails is \<open>None\<close> (or the status it
  returned), a call that succeeds carries the string it produced. \<open>realpath\<close> with a
  null buffer and \<open>strdup\<close> allocate their result and return \<open>NULL\<close> on failure.
\<close>

record config =
  def_APPLE :: bool
  def_FreeBSD :: bool
  def_sun :: bool
  def_HAIKU :: bool
  def_WIN32 :: bool
  def_TARGET_WASM :: bool
  def_linux :: bool
  HAVE_GETAUXVAL_and_AT_EXECFN :: bool

record os_calls =
  NSGetExecutablePath :: "string option"
  sysctl_KERN_PROC_PATHNAME :: "string option"
  getexecname :: "string option"
  find_path_B_APP_IMAGE_SYMBOL :: "int + string"
  GetModuleFileNameA :: "string option"
  getauxval_AT_EXECFN :: "string option"
  realpath :: "string \<Rightarrow> string option"
  strdup :: "string \<Rightarrow> string option"

text \<open>The value the function itself assigns to \<open>errno\<close>, if it assigns one.\<close>

datatype errno_value = EINVAL | status_t int

definition minipal_getexepath :: "config \<Rightarrow> os_calls \<Rightarrow> string option \<times> errno_value option" where
  "minipal_getexepath c os =
     (if def_APPLE c then
        (case NSGetExecutablePath os of
           None \<Rightarrow> (None, Some EINVAL)
         | Some pathBuf \<Rightarrow> (realpath os pathBuf, None))
      else if def_FreeBSD c then
        (case sysctl_KERN_PROC_PATHNAME os of
           None \<Rightarrow> (None, None)
         | Some path \<Rightarrow> (strdup os path, None))
      else if def_sun c then
        (case getexecname os of
           None \<Rightarrow> (None, None)
         | Some path \<Rightarrow> (realpath os path, None))
      else if def_HAIKU c then
        (case find_path_B_APP_IMAGE_SYMBOL os of
           Inl status \<Rightarrow> (None, Some (status_t status))
         | Inr path \<Rightarrow> (realpath os path, None))
      else if def_WIN32 c then
        (case GetModuleFileNameA os of
           None \<Rightarrow> (None, None)
         | Some path \<Rightarrow> (strdup os path, None))
      else if def_TARGET_WASM c then (strdup os ''/managed'', None)
      else
        (let symlinkEntrypointExecutable =
               (if def_linux c then ''/proc/self/exe'' else ''/proc/curproc/exe'')
         in case realpath os symlinkEntrypointExecutable of
              Some path \<Rightarrow> (Some path, None)
            | None \<Rightarrow>
               (if HAVE_GETAUXVAL_and_AT_EXECFN c then
                  (case getauxval_AT_EXECFN os of
                     Some exePath \<Rightarrow> (realpath os exePath, None)
                   | None \<Rightarrow> (None, None))
                else (None, None))))"

section \<open>Concrete inputs\<close>

text \<open>
  A 64-bit target in which a type \<open>Point\<close> of 8 bytes has the members \<open>x\<close> at offset 0
  and \<open>y\<close> at offset 4, and a type \<open>Point3\<close> derived from it keeps the \<open>Point\<close> part at
  offset 8. The flag chooses a build with or without \<open>ASSERT\<close>.
\<close>

definition point_target :: "bool \<Rightarrow> 64 target" where
  "point_target dbg =
     \<lparr>ASSERT_enabled = dbg, FEATURE_EH_FUNCLETS = True,
      sizeof = (\<lambda>T. if T = ''Point'' then 8 else 24),
      offsetof = (\<lambda>T F. (if T = ''Point3'' then 8 else 0) + (if F = ''y'' then 4 else 0)),
      value_of = (\<lambda>v. 1), macro_expansion = (\<lambda>a. a)\<rparr>"

text \<open>The registrations of the specification's example.\<close>

definition point_registrations :: "'a target \<Rightarrow> stmt list" where
  "point_registrations t =
     [MAKE_TYPE_ENTRY t ''Point'', MAKE_FIELD_ENTRY t ''Point'' ''x'',
      MAKE_FIELD_ENTRY t ''Point'' ''y'']"

text \<open>
  Lines 180 to 185 of the source: the first five statements of the function body.
\<close>

definition lines_180_185 :: "'a target \<Rightarrow> stmt list" where
  "lines_180_185 t =
     [MAKE_GLOBAL_ENTRY ''ThreadStore::s_pThreadStore'',
      MAKE_TYPE_ENTRY t ''ThreadStore'',
      MAKE_FIELD_ENTRY t ''ThreadStore'' ''m_ThreadList'',
      MAKE_TYPE_ENTRY t ''Thread'',
      MAKE_FIELD_ENTRY t ''Thread'' ''m_Link'']"

text \<open>
  A derived type after the example type: \<open>Point3\<close> with base \<open>Point\<close>, related through
  the member \<open>x\<close>.
\<close>

definition point3_registrations :: "'a target \<Rightarrow> stmt list" where
  "point3_registrations t =
     point_registrations t @
     [MAKE_TYPE_ENTRY t ''Point3'', MAKE_BASE_TYPE_ENTRY t ''Point3'' ''Point'' ''x'']"

text \<open>One Global registration more than the Global table holds.\<close>

definition too_many_globals :: "stmt list" where
  "too_many_globals = replicate (Suc DebugGlobalsArraySize) (MAKE_GLOBAL_ENTRY ''g'')"

text \<open>
  A Linux build with \<open>getauxval\<close>, on a system where \<open>/proc/self/exe\<close> cannot be resolved
  and the process was started through a script.
\<close>

definition linux_config :: config where
  "linux_config =
     \<lparr>def_APPLE = False, def_FreeBSD = False, def_sun = False, def_HAIKU = False,
      def_WIN32 = False, def_TARGET_WASM = False, def_linux = True,
      HAVE_GETAUXVAL_and_AT_EXECFN = True\<rparr>"

definition os_without_proc :: os_calls where
  "os_without_proc =
     \<lparr>NSGetExecutablePath = None, sysctl_KERN_PROC_PATHNAME = None, getexecname = None,
      find_path_B_APP_IMAGE_SYMBOL = Inl (-1), GetModuleFileNameA = None,
      getauxval_AT_EXECFN = Some ''./run.sh'',
      realpath = (\<lambda>p. if p = ''./run.sh'' then Some ''/home/user/run.sh'' else None),
      strdup = Some\<rparr>"

definition os_with_proc :: os_calls where
  "os_with_proc =
     \<lparr>NSGetExecutablePath = None, sysctl_KERN_PROC_PATHNAME = None, getexecname = None,
      find_path_B_APP_IMAGE_SYMBOL = Inl (-1), GetModuleFileNameA = None,
      getauxval_AT_EXECFN = None,
      realpath = (\<lambda>p. if p = ''/proc/self/exe'' then Some ''/usr/bin/dotnet'' else None),
      strdup = Some\<rparr>"

section \<open>Executions from the entry state\<close>

text \<open>
  The lemmas of this section relate a successful run from \<open>initial_state\<close> to the
  statement list that was run: the counters count the registrations, the arrays hold
  the registered rows in order, and the type identifiers are the positions of their
  declarations.
\<close>

lemma run_snoc:
  "run t (xs @ [x]) s = (case run t xs s of Inl e \<Rightarrow> Inl e | Inr s' \<Rightarrow> exec t x s')"
  by (induction xs arbitrary: s) (auto split: sum.splits)

lemma run_append:
  "run t (xs @ ys) s = (case run t xs s of Inl e \<Rightarrow> Inl e | Inr s' \<Rightarrow> run t ys s')"
  by (induction xs arbitrary: s) (auto split: sum.splits)

lemma globals_of_append: "globals_of (xs @ ys) = globals_of xs @ globals_of ys"
  by (induction xs rule: globals_of.induct) simp_all

lemma types_of_append: "types_of t (xs @ ys) = types_of t xs @ types_of t ys"
  by (induction t xs rule: types_of.induct) simp_all

lemma defines_of_append: "defines_of t (xs @ ys) = defines_of t xs @ defines_of t ys"
  by (induction t xs rule: defines_of.induct) simp_all

lemma declared_append: "declared (xs @ ys) = declared xs @ declared ys"
  by (induction xs rule: declared.induct) simp_all

lemma fields_of_append:
  "fields_of t ds (xs @ ys) = fields_of t ds xs @ fields_of t (ds @ declared xs) ys"
  by (induction t ds xs rule: fields_of.induct) simp_all

lemma bases_of_append:
  "bases_of t ds (xs @ ys) = bases_of t ds xs @ bases_of t (ds @ declared xs) ys"
  by (induction t ds xs rule: bases_of.induct) simp_all

lemma well_scoped_append:
  "well_scoped ds (xs @ ys) = (well_scoped ds xs \<and> well_scoped (ds @ declared xs) ys)"
  by (induction ds xs rule: well_scoped.induct) simp_all

lemma length_types_of: "length (types_of t xs) = length (declared xs)"
  by (induction xs rule: declared.induct) simp_all

lemma exec_global:
  "exec t (MAKE_GLOBAL_ENTRY n) s = Inr s' \<Longrightarrow>
   s' = s\<lparr>s_DebugGlobals := store_row (s_DebugGlobals s) (currentGlobalPos s) \<lparr>GlobalName = n, Address = Addr_of n\<rparr>,
         stray := stray_store Addr_s_DebugGlobals (s_DebugGlobals s) (currentGlobalPos s) (stray s),
         currentGlobalPos := currentGlobalPos s + 1\<rparr>"
  by (simp add: Let_def ASSERT_def split: if_splits)

lemma exec_type:
  "exec t (MAKE_TYPE_ENTRY_WITH_ID T i) s = Inr s' \<Longrightarrow>
   map_of (TypeIds s) i = None \<and>
   s' = s\<lparr>TypeIds := (i, currentTypePos s) # TypeIds s,
         s_DebugTypes := store_row (s_DebugTypes s) (currentTypePos s) \<lparr>TypeName = T, Size = ucast (sizeof t T)\<rparr>,
         stray := stray_store Addr_s_DebugTypes (s_DebugTypes s) (currentTypePos s) (stray s),
         currentTypePos := currentTypePos s + 1\<rparr>"
  by (simp add: Let_def ASSERT_def split: if_splits option.splits)

lemma exec_field:
  "exec t (MAKE_FIELD_ENTRY_WITH_ID T i F) s = Inr s' \<Longrightarrow>
   \<exists>tid. map_of (TypeIds s) i = Some tid \<and>
   s' = s\<lparr>s_DebugFields := store_row (s_DebugFields s) (currentFieldPos s)
            \<lparr>MemberName = F, TypeId = tid, Offset = ucast (offsetof t T F)\<rparr>,
         stray := stray_store Addr_s_DebugFields (s_DebugFields s) (currentFieldPos s) (stray s),
         currentFieldPos := currentFieldPos s + 1\<rparr>"
  by (simp add: Let_def ASSERT_def split: if_splits option.splits)

lemma exec_base:
  "exec t (MAKE_BASE_TYPE_ENTRY_WITH_ID T i B F) s = Inr s' \<Longrightarrow>
   \<exists>tid. map_of (TypeIds s) i = Some tid \<and>
   s' = s\<lparr>s_DebugBases := store_row (s_DebugBases s) (currentBasePos s)
            \<lparr>MemberName = B, TypeId = tid, Offset = ucast (offsetof t T F - offsetof t B F)\<rparr>,
         stray := stray_store Addr_s_DebugBases (s_DebugBases s) (currentBasePos s) (stray s),
         currentBasePos := currentBasePos s + 1\<rparr>"
  by (simp add: Let_def ASSERT_def baseoffset_def split: if_splits option.splits)

lemma exec_define:
  "exec t (MAKE_DEFINE_ENTRY n v) s = Inr s' \<Longrightarrow>
   s' = s\<lparr>s_DebugDefines := store_row (s_DebugDefines s) (currentDefinePos s) \<lparr>DefineName = n, DefineValue = value_of t v\<rparr>,
         stray := stray_store Addr_s_DebugDefines (s_DebugDefines s) (currentDefinePos s) (stray s),
         currentDefinePos := currentDefinePos s + 1\<rparr>"
  by (simp add: Let_def ASSERT_def split: if_splits)

lemma exec_table:
  "exec t (MAKE_TABLE n a c) s = Inr s' \<Longrightarrow>
   s' = s\<lparr>s_DebugTables := store_row (s_DebugTables s) (currentTablePos s)
            \<lparr>TableName = n, TableElements = a, RowCount = counter_value s c\<rparr>,
         stray := stray_store Addr_s_DebugTables (s_DebugTables s) (currentTablePos s) (stray s),
         currentTablePos := currentTablePos s + 1\<rparr>"
  by (simp add: Let_def ASSERT_def split: if_splits)

lemma exec_set:
  "exec t SET_DebugTableCount s = Inr s' \<Longrightarrow>
   s' = s\<lparr>Header := (Header s)\<lparr>DebugTableCount := currentTablePos s\<rparr>\<rparr>"
  by auto

lemmas exec_elims = exec_global exec_type exec_field exec_base exec_define exec_table exec_set

lemma exec_positions:
  assumes "exec t x s = Inr s'"
  shows "currentGlobalPos s' = currentGlobalPos s + of_nat (length (globals_of [x]))"
    and "currentTypePos s' = currentTypePos s + of_nat (length (declared [x]))"
    and "currentFieldPos s' = currentFieldPos s + of_nat (length (fields_of t ds [x]))"
    and "currentBasePos s' = currentBasePos s + of_nat (length (bases_of t ds [x]))"
    and "currentDefinePos s' = currentDefinePos s + of_nat (length (defines_of t [x]))"
  using assms by (cases x; simp add: Let_def ASSERT_def split: if_splits option.splits; fastforce)+

lemma length_fields_of: "length (fields_of t ds xs) = length (fields_of t ds' xs)"
  by (induction t ds xs arbitrary: ds' rule: fields_of.induct) simp_all

lemma length_bases_of: "length (bases_of t ds xs) = length (bases_of t ds' xs)"
  by (induction t ds xs arbitrary: ds' rule: bases_of.induct) simp_all


declare exec.simps [simp del]

lemma run_positions:
  "run t xs initial_state = Inr s \<Longrightarrow>
     currentGlobalPos s = of_nat (length (globals_of xs)) \<and>
     currentTypePos s = of_nat (length (declared xs)) \<and>
     currentFieldPos s = of_nat (length (fields_of t [] xs)) \<and>
     currentBasePos s = of_nat (length (bases_of t [] xs)) \<and>
     currentDefinePos s = of_nat (length (defines_of t xs))"
proof (induction xs arbitrary: s rule: rev_induct)
  case Nil
  then show ?case by (auto simp: initial_state_def)
next
  case (snoc x xs)
  then obtain s1 where r: "run t xs initial_state = Inr s1" and e: "exec t x s1 = Inr s"
    by (auto simp: run_snoc split: sum.splits)
  from snoc.IH[OF r] exec_positions(1,2,5)[OF e] exec_positions(3,4)[OF e, of "declared xs"] show ?case
    by (simp add: globals_of_append declared_append fields_of_append bases_of_append
        defines_of_append length_fields_of[where ds="declared xs" and ds'="[]"]
        length_bases_of[where ds="declared xs" and ds'="[]"])
qed

lemma unat_of_nat_small: "n < 2 ^ 32 \<Longrightarrow> unat (of_nat n :: 32 word) = n"
  by (simp add: unat_of_nat)

lemma index_of_append:
  "index_of (ds @ es) j = (if j \<in> set ds then index_of ds j else length ds + index_of es j)"
  by (induction ds) auto

lemma exec_TypeIds:
  "exec t x s = Inr s' \<Longrightarrow>
   TypeIds s' = (case x of MAKE_TYPE_ENTRY_WITH_ID T i \<Rightarrow> (i, currentTypePos s) # TypeIds s | _ \<Rightarrow> TypeIds s)"
  by (cases x) (auto dest!: exec_elims)

lemma run_TypeIds:
  "run t xs initial_state = Inr s \<Longrightarrow>
     distinct (declared xs) \<and>
     (\<forall>i. map_of (TypeIds s) i =
        (if i \<in> set (declared xs) then Some (of_nat (index_of (declared xs) i)) else None))"
proof (induction xs arbitrary: s rule: rev_induct)
  case Nil
  then show ?case by (auto simp: initial_state_def)
next
  case (snoc x xs)
  then obtain s1 where r: "run t xs initial_state = Inr s1" and e: "exec t x s1 = Inr s"
    by (auto simp: run_snoc split: sum.splits)
  note ih = snoc.IH[OF r]
  note pos = run_positions[OF r]
  show ?case
  proof (cases x)
    case (MAKE_TYPE_ENTRY_WITH_ID T i)
    with e have n: "map_of (TypeIds s1) i = None"
      and s: "TypeIds s = (i, currentTypePos s1) # TypeIds s1"
      by (auto dest!: exec_type)
    from n ih have notin: "i \<notin> set (declared xs)" by (auto split: if_splits)
    with ih s pos show ?thesis
      by (auto simp: MAKE_TYPE_ENTRY_WITH_ID declared_append index_of_append)
  qed (use ih exec_TypeIds[OF e] in \<open>auto simp: declared_append\<close>)
qed


lemmas capacity_defs = DebugTablesArraySize_def DebugGlobalsArraySize_def DebugTypesArraySize_def
  DebugFieldsArraySize_def DebugBasesArraySize_def DebugDefinesArraySize_def

lemma unat_of_nat_Suc: "n < 1000 \<Longrightarrow> unat (of_nat n + 1 :: 32 word) = Suc n"
proof -
  assume "n < 1000"
  then have "unat (of_nat (Suc n) :: 32 word) = Suc n" by (intro unat_of_nat_small) simp
  then show ?thesis by (simp add: add.commute)
qed

lemma length_store_row [simp]: "length (store_row a i r) = length a"
  by (simp add: store_row_def)

lemma store_next:
  assumes "a = map Some rows @ replicate (cap - length rows) None"
    and "Suc (length rows) \<le> cap" and "cap < 1000"
  shows "store_row a (of_nat (length rows)) r =
         map Some (rows @ [r]) @ replicate (cap - Suc (length rows)) None"
proof -
  from assms have u: "unat (of_nat (length rows) :: 32 word) = length rows"
    by (intro unat_of_nat_small) simp
  from assms(2) have c: "cap - length rows = Suc (cap - Suc (length rows))" by arith
  show ?thesis
    unfolding store_row_def u assms(1) c by (simp add: list_update_append)
qed

lemma stray_next:
  assumes "length a = cap" and "Suc n \<le> cap" and "cap < 1000"
  shows "stray_store p a (of_nat n) log = log"
proof -
  from assms have "unat (of_nat n :: 32 word) = n" by (intro unat_of_nat_small) simp
  with assms show ?thesis by (simp add: stray_store_def)
qed

lemma exec_lengths:
  "exec t x s = Inr s' \<Longrightarrow>
     length (s_DebugTables s') = length (s_DebugTables s) \<and>
     length (s_DebugGlobals s') = length (s_DebugGlobals s) \<and>
     length (s_DebugTypes s') = length (s_DebugTypes s) \<and>
     length (s_DebugFields s') = length (s_DebugFields s) \<and>
     length (s_DebugBases s') = length (s_DebugBases s) \<and>
     length (s_DebugDefines s') = length (s_DebugDefines s)"
  by (cases x) (auto dest!: exec_elims)

lemma run_lengths:
  "run t xs s = Inr s' \<Longrightarrow>
     length (s_DebugTables s') = length (s_DebugTables s) \<and>
     length (s_DebugGlobals s') = length (s_DebugGlobals s) \<and>
     length (s_DebugTypes s') = length (s_DebugTypes s) \<and>
     length (s_DebugFields s') = length (s_DebugFields s) \<and>
     length (s_DebugBases s') = length (s_DebugBases s) \<and>
     length (s_DebugDefines s') = length (s_DebugDefines s)"
proof (induction xs arbitrary: s)
  case Nil
  then show ?case by simp
next
  case (Cons x xs)
  then obtain s1 where e: "exec t x s = Inr s1" and r: "run t xs s1 = Inr s'"
    by (auto split: sum.splits)
  from Cons.IH[OF r] exec_lengths[OF e] show ?case by simp
qed

lemma run_s_DebugGlobals:
  "run t xs initial_state = Inr s \<Longrightarrow> length (globals_of xs) \<le> DebugGlobalsArraySize \<Longrightarrow>
   s_DebugGlobals s =
     map Some (globals_of xs) @ replicate (DebugGlobalsArraySize - length (globals_of xs)) None"
proof (induction xs arbitrary: s rule: rev_induct)
  case Nil
  then show ?case by (auto simp: initial_state_def)
next
  case (snoc x xs)
  then obtain s1 where r: "run t xs initial_state = Inr s1" and e: "exec t x s1 = Inr s"
    by (auto simp: run_snoc split: sum.splits)
  from snoc.prems(2) have cap: "length (globals_of xs) \<le> DebugGlobalsArraySize"
    by (simp add: globals_of_append)
  note ih = snoc.IH[OF r cap] and pos = run_positions[OF r]
  show ?case
  proof (cases x)
    case (MAKE_GLOBAL_ENTRY n)
    with e have "s_DebugGlobals s =
        store_row (s_DebugGlobals s1) (currentGlobalPos s1) \<lparr>GlobalName = n, Address = Addr_of n\<rparr>"
      by (auto dest!: exec_global)
    moreover from snoc.prems(2) MAKE_GLOBAL_ENTRY
    have "Suc (length (globals_of xs)) \<le> DebugGlobalsArraySize"
      by (simp add: globals_of_append)
    ultimately show ?thesis
      using pos MAKE_GLOBAL_ENTRY store_next[OF ih]
      by (simp add: globals_of_append DebugGlobalsArraySize_def)
  qed (use e ih in \<open>auto dest!: exec_elims simp: globals_of_append\<close>)
qed

lemma run_s_DebugTypes:
  "run t xs initial_state = Inr s \<Longrightarrow> length (declared xs) \<le> DebugTypesArraySize \<Longrightarrow>
   s_DebugTypes s =
     map Some (types_of t xs) @ replicate (DebugTypesArraySize - length (types_of t xs)) None"
proof (induction xs arbitrary: s rule: rev_induct)
  case Nil
  then show ?case by (auto simp: initial_state_def)
next
  case (snoc x xs)
  then obtain s1 where r: "run t xs initial_state = Inr s1" and e: "exec t x s1 = Inr s"
    by (auto simp: run_snoc split: sum.splits)
  from snoc.prems(2) have cap: "length (declared xs) \<le> DebugTypesArraySize"
    by (simp add: declared_append)
  note ih = snoc.IH[OF r cap] and pos = run_positions[OF r]
  show ?case
  proof (cases x)
    case (MAKE_TYPE_ENTRY_WITH_ID T i)
    with e have "s_DebugTypes s =
        store_row (s_DebugTypes s1) (currentTypePos s1) \<lparr>TypeName = T, Size = ucast (sizeof t T)\<rparr>"
      by (auto dest!: exec_type)
    moreover from snoc.prems(2) MAKE_TYPE_ENTRY_WITH_ID
    have "Suc (length (types_of t xs)) \<le> DebugTypesArraySize"
      by (simp add: declared_append length_types_of)
    ultimately show ?thesis
      using pos MAKE_TYPE_ENTRY_WITH_ID store_next[OF ih]
      by (simp add: types_of_append DebugTypesArraySize_def length_types_of)
  qed (use e ih in \<open>auto dest!: exec_elims simp: types_of_append\<close>)
qed

lemma run_s_DebugDefines:
  "run t xs initial_state = Inr s \<Longrightarrow> length (defines_of t xs) \<le> DebugDefinesArraySize \<Longrightarrow>
   s_DebugDefines s =
     map Some (defines_of t xs) @ replicate (DebugDefinesArraySize - length (defines_of t xs)) None"
proof (induction xs arbitrary: s rule: rev_induct)
  case Nil
  then show ?case by (auto simp: initial_state_def)
next
  case (snoc x xs)
  then obtain s1 where r: "run t xs initial_state = Inr s1" and e: "exec t x s1 = Inr s"
    by (auto simp: run_snoc split: sum.splits)
  from snoc.prems(2) have cap: "length (defines_of t xs) \<le> DebugDefinesArraySize"
    by (simp add: defines_of_append)
  note ih = snoc.IH[OF r cap] and pos = run_positions[OF r]
  show ?case
  proof (cases x)
    case (MAKE_DEFINE_ENTRY n v)
    with e have "s_DebugDefines s =
        store_row (s_DebugDefines s1) (currentDefinePos s1) \<lparr>DefineName = n, DefineValue = value_of t v\<rparr>"
      by (auto dest!: exec_define)
    moreover from snoc.prems(2) MAKE_DEFINE_ENTRY
    have "Suc (length (defines_of t xs)) \<le> DebugDefinesArraySize"
      by (simp add: defines_of_append)
    ultimately show ?thesis
      using pos MAKE_DEFINE_ENTRY store_next[OF ih]
      by (simp add: defines_of_append DebugDefinesArraySize_def)
  qed (use e ih in \<open>auto dest!: exec_elims simp: defines_of_append\<close>)
qed

lemma run_s_DebugFields:
  "run t xs initial_state = Inr s \<Longrightarrow> length (fields_of t [] xs) \<le> DebugFieldsArraySize \<Longrightarrow>
   s_DebugFields s =
     map Some (fields_of t [] xs) @ replicate (DebugFieldsArraySize - length (fields_of t [] xs)) None"
proof (induction xs arbitrary: s rule: rev_induct)
  case Nil
  then show ?case by (auto simp: initial_state_def)
next
  case (snoc x xs)
  then obtain s1 where r: "run t xs initial_state = Inr s1" and e: "exec t x s1 = Inr s"
    by (auto simp: run_snoc split: sum.splits)
  from snoc.prems(2) have cap: "length (fields_of t [] xs) \<le> DebugFieldsArraySize"
    by (simp add: fields_of_append)
  note ih = snoc.IH[OF r cap] and pos = run_positions[OF r] and ids = run_TypeIds[OF r]
  show ?case
  proof (cases x)
    case (MAKE_FIELD_ENTRY_WITH_ID T i F)
    with e obtain tid where tid: "map_of (TypeIds s1) i = Some tid" and "s_DebugFields s =
        store_row (s_DebugFields s1) (currentFieldPos s1)
          \<lparr>MemberName = F, TypeId = tid, Offset = ucast (offsetof t T F)\<rparr>"
      by (auto dest!: exec_field)
    moreover from tid ids have "tid = of_nat (index_of (declared xs) i)"
      by (auto split: if_splits)
    moreover from snoc.prems(2) MAKE_FIELD_ENTRY_WITH_ID
    have "Suc (length (fields_of t [] xs)) \<le> DebugFieldsArraySize"
      by (simp add: fields_of_append)
    ultimately show ?thesis
      using pos MAKE_FIELD_ENTRY_WITH_ID store_next[OF ih]
      by (simp add: fields_of_append DebugFieldsArraySize_def)
  qed (use e ih in \<open>auto dest!: exec_elims simp: fields_of_append\<close>)
qed

lemma run_s_DebugBases:
  "run t xs initial_state = Inr s \<Longrightarrow> length (bases_of t [] xs) \<le> DebugBasesArraySize \<Longrightarrow>
   s_DebugBases s =
     map Some (bases_of t [] xs) @ replicate (DebugBasesArraySize - length (bases_of t [] xs)) None"
proof (induction xs arbitrary: s rule: rev_induct)
  case Nil
  then show ?case by (auto simp: initial_state_def)
next
  case (snoc x xs)
  then obtain s1 where r: "run t xs initial_state = Inr s1" and e: "exec t x s1 = Inr s"
    by (auto simp: run_snoc split: sum.splits)
  from snoc.prems(2) have cap: "length (bases_of t [] xs) \<le> DebugBasesArraySize"
    by (simp add: bases_of_append)
  note ih = snoc.IH[OF r cap] and pos = run_positions[OF r] and ids = run_TypeIds[OF r]
  show ?case
  proof (cases x)
    case (MAKE_BASE_TYPE_ENTRY_WITH_ID T i B F)
    with e obtain tid where tid: "map_of (TypeIds s1) i = Some tid" and "s_DebugBases s =
        store_row (s_DebugBases s1) (currentBasePos s1)
          \<lparr>MemberName = B, TypeId = tid, Offset = ucast (offsetof t T F - offsetof t B F)\<rparr>"
      by (auto dest!: exec_base)
    moreover from tid ids have "tid = of_nat (index_of (declared xs) i)"
      by (auto split: if_splits)
    moreover from snoc.prems(2) MAKE_BASE_TYPE_ENTRY_WITH_ID
    have "Suc (length (bases_of t [] xs)) \<le> DebugBasesArraySize"
      by (simp add: bases_of_append)
    ultimately show ?thesis
      using pos MAKE_BASE_TYPE_ENTRY_WITH_ID store_next[OF ih]
      by (simp add: bases_of_append DebugBasesArraySize_def)
  qed (use e ih in \<open>auto dest!: exec_elims simp: bases_of_append\<close>)
qed


lemma within_capacity_snoc: "within_capacity t (xs @ [x]) \<Longrightarrow> within_capacity t xs"
  by (simp add: within_capacity_def globals_of_append declared_append fields_of_append
      bases_of_append defines_of_append)

lemma initial_lengths:
  "length (s_DebugTables initial_state) = DebugTablesArraySize"
  "length (s_DebugGlobals initial_state) = DebugGlobalsArraySize"
  "length (s_DebugTypes initial_state) = DebugTypesArraySize"
  "length (s_DebugFields initial_state) = DebugFieldsArraySize"
  "length (s_DebugBases initial_state) = DebugBasesArraySize"
  "length (s_DebugDefines initial_state) = DebugDefinesArraySize"
  by (simp_all add: initial_state_def)

lemma run_stray:
  "run t xs initial_state = Inr s \<Longrightarrow> list_all is_registration xs \<Longrightarrow> within_capacity t xs \<Longrightarrow>
   stray s = []"
proof (induction xs arbitrary: s rule: rev_induct)
  case Nil
  then show ?case by (auto simp: initial_state_def)
next
  case (snoc x xs)
  then obtain s1 where r: "run t xs initial_state = Inr s1" and e: "exec t x s1 = Inr s"
    by (auto simp: run_snoc split: sum.splits)
  from snoc.prems have ih: "stray s1 = []"
    by (intro snoc.IH[OF r]) (auto dest: within_capacity_snoc)
  note pos = run_positions[OF r] and len = run_lengths[OF r, unfolded initial_lengths]
  from snoc.prems(3) have c: "within_capacity t (xs @ [x])" .
  show ?case
  proof (cases x)
    case (MAKE_GLOBAL_ENTRY n)
    with c have "Suc (length (globals_of xs)) \<le> DebugGlobalsArraySize"
      by (simp add: within_capacity_def globals_of_append)
    with e ih pos len MAKE_GLOBAL_ENTRY show ?thesis
      by (auto dest!: exec_global simp: stray_next DebugGlobalsArraySize_def)
  next
    case (MAKE_TYPE_ENTRY_WITH_ID T i)
    with c have "Suc (length (declared xs)) \<le> DebugTypesArraySize"
      by (simp add: within_capacity_def declared_append)
    with e ih pos len MAKE_TYPE_ENTRY_WITH_ID show ?thesis
      by (auto dest!: exec_type simp: stray_next DebugTypesArraySize_def)
  next
    case (MAKE_BASE_TYPE_ENTRY_WITH_ID T i B F)
    with c have "Suc (length (bases_of t [] xs)) \<le> DebugBasesArraySize"
      by (simp add: within_capacity_def bases_of_append)
    with e ih pos len MAKE_BASE_TYPE_ENTRY_WITH_ID show ?thesis
      by (auto dest!: exec_base simp: stray_next DebugBasesArraySize_def)
  next
    case (MAKE_FIELD_ENTRY_WITH_ID T i F)
    with c have "Suc (length (fields_of t [] xs)) \<le> DebugFieldsArraySize"
      by (simp add: within_capacity_def fields_of_append)
    with e ih pos len MAKE_FIELD_ENTRY_WITH_ID show ?thesis
      by (auto dest!: exec_field simp: stray_next DebugFieldsArraySize_def)
  next
    case (MAKE_DEFINE_ENTRY n v)
    with c have "Suc (length (defines_of t xs)) \<le> DebugDefinesArraySize"
      by (simp add: within_capacity_def defines_of_append)
    with e ih pos len MAKE_DEFINE_ENTRY show ?thesis
      by (auto dest!: exec_define simp: stray_next DebugDefinesArraySize_def)
  qed (use snoc.prems(2) in auto)
qed

lemma exec_registration_frame:
  "exec t x s = Inr s' \<Longrightarrow> is_registration x \<Longrightarrow>
   s_DebugTables s' = s_DebugTables s \<and> currentTablePos s' = currentTablePos s"
  by (cases x) (auto dest!: exec_elims)

lemma run_registration_frame:
  "run t xs s = Inr s' \<Longrightarrow> list_all is_registration xs \<Longrightarrow>
   s_DebugTables s' = s_DebugTables s \<and> currentTablePos s' = currentTablePos s"
proof (induction xs arbitrary: s)
  case Nil
  then show ?case by simp
next
  case (Cons x xs)
  then obtain s1 where e: "exec t x s = Inr s1" and r: "run t xs s1 = Inr s'"
    by (auto split: sum.splits)
  from Cons.prems(2) Cons.IH[OF r] exec_registration_frame[OF e] show ?case by simp
qed

lemma exec_Header:
  "exec t x s = Inr s' \<Longrightarrow>
   Header s' = (if x = SET_DebugTableCount
                then (Header s)\<lparr>DebugTableCount := currentTablePos s\<rparr> else Header s)"
  by (cases x) (auto dest!: exec_elims)

lemma run_Header_frame:
  "run t xs s = Inr s' \<Longrightarrow> SET_DebugTableCount \<notin> set xs \<Longrightarrow> Header s' = Header s"
proof (induction xs arbitrary: s)
  case Nil
  then show ?case by simp
next
  case (Cons x xs)
  then obtain s1 where e: "exec t x s = Inr s1" and r: "run t xs s1 = Inr s'"
    by (auto split: sum.splits)
  from Cons.prems(2) Cons.IH[OF r] exec_Header[OF e] show ?case by auto
qed

lemma run_Header_identity:
  "run t xs s = Inr s' \<Longrightarrow>
   Cookie (Header s') = Cookie (Header s) \<and> MajorVersion (Header s') = MajorVersion (Header s) \<and>
   MinorVersion (Header s') = MinorVersion (Header s) \<and> DebugTables (Header s') = DebugTables (Header s)"
proof (induction xs arbitrary: s)
  case Nil
  then show ?case by simp
next
  case (Cons x xs)
  then obtain s1 where e: "exec t x s = Inr s1" and r: "run t xs s1 = Inr s'"
    by (auto split: sum.splits)
  from Cons.IH[OF r] exec_Header[OF e] show ?case by (simp split: if_splits)
qed

lemma run_succeeds:
  "well_scoped [] xs \<Longrightarrow> list_all is_registration xs \<Longrightarrow> within_capacity t xs \<Longrightarrow>
   \<exists>s. run t xs initial_state = Inr s"
proof (induction xs rule: rev_induct)
  case Nil
  then show ?case by simp
next
  case (snoc x xs)
  from snoc.prems have ws: "well_scoped [] xs" and wx: "well_scoped (declared xs) [x]"
    by (simp_all add: well_scoped_append)
  from snoc.prems ws obtain s1 where r: "run t xs initial_state = Inr s1"
    using snoc.IH within_capacity_snoc by auto
  note pos = run_positions[OF r] and ids = run_TypeIds[OF r]
  from snoc.prems(3) have c: "within_capacity t (xs @ [x])" .
  have "\<exists>s. exec t x s1 = Inr s"
  proof (cases x)
    case (MAKE_GLOBAL_ENTRY n)
    with c have "Suc (length (globals_of xs)) \<le> DebugGlobalsArraySize"
      by (simp add: within_capacity_def globals_of_append)
    with pos MAKE_GLOBAL_ENTRY show ?thesis
      by (simp add: exec.simps Let_def ASSERT_def unat_of_nat_Suc DebugGlobalsArraySize_def)
  next
    case (MAKE_TYPE_ENTRY_WITH_ID T i)
    with c have "Suc (length (declared xs)) \<le> DebugTypesArraySize"
      by (simp add: within_capacity_def declared_append)
    moreover from wx ids MAKE_TYPE_ENTRY_WITH_ID have "map_of (TypeIds s1) i = None" by simp
    ultimately show ?thesis using pos MAKE_TYPE_ENTRY_WITH_ID
      by (simp add: exec.simps Let_def ASSERT_def unat_of_nat_Suc DebugTypesArraySize_def)
  next
    case (MAKE_BASE_TYPE_ENTRY_WITH_ID T i B F)
    with c have "Suc (length (bases_of t [] xs)) \<le> DebugBasesArraySize"
      by (simp add: within_capacity_def bases_of_append)
    moreover from wx ids MAKE_BASE_TYPE_ENTRY_WITH_ID
    have "map_of (TypeIds s1) i = Some (of_nat (index_of (declared xs) i))" by simp
    ultimately show ?thesis using pos MAKE_BASE_TYPE_ENTRY_WITH_ID
      by (simp add: exec.simps Let_def ASSERT_def unat_of_nat_Suc DebugBasesArraySize_def)
  next
    case (MAKE_FIELD_ENTRY_WITH_ID T i F)
    with c have "Suc (length (fields_of t [] xs)) \<le> DebugFieldsArraySize"
      by (simp add: within_capacity_def fields_of_append)
    moreover from wx ids MAKE_FIELD_ENTRY_WITH_ID
    have "map_of (TypeIds s1) i = Some (of_nat (index_of (declared xs) i))" by simp
    ultimately show ?thesis using pos MAKE_FIELD_ENTRY_WITH_ID
      by (simp add: exec.simps Let_def ASSERT_def unat_of_nat_Suc DebugFieldsArraySize_def)
  next
    case (MAKE_DEFINE_ENTRY n v)
    with c have "Suc (length (defines_of t xs)) \<le> DebugDefinesArraySize"
      by (simp add: within_capacity_def defines_of_append)
    with pos MAKE_DEFINE_ENTRY show ?thesis
      by (simp add: exec.simps Let_def ASSERT_def unat_of_nat_Suc DebugDefinesArraySize_def)
  qed (use snoc.prems(2) in auto)
  with r show ?case by (auto simp: run_snoc)
qed


lemma five_stores:
  "(replicate 5 None)[0 := Some a, Suc 0 := Some b, 2 := Some c, 3 := Some d, 4 := Some e] =
   [Some a, Some b, Some c, Some d, Some e]"
  by (simp add: eval_nat_numeral)

lemma run_finalize:
  assumes "s_DebugTables s1 = replicate DebugTablesArraySize None" and "currentTablePos s1 = 0"
  shows "\<exists>s. run t (make_tables @ [SET_DebugTableCount]) s1 = Inr s \<and>
     s_DebugTables s =
       [Some \<lparr>TableName = ''Global'', TableElements = Addr_s_DebugGlobals, RowCount = currentGlobalPos s1\<rparr>,
        Some \<lparr>TableName = ''Type'', TableElements = Addr_s_DebugTypes, RowCount = currentTypePos s1\<rparr>,
        Some \<lparr>TableName = ''Field'', TableElements = Addr_s_DebugFields, RowCount = currentFieldPos s1\<rparr>,
        Some \<lparr>TableName = ''Base'', TableElements = Addr_s_DebugBases, RowCount = currentBasePos s1\<rparr>,
        Some \<lparr>TableName = ''Define'', TableElements = Addr_s_DebugDefines, RowCount = currentDefinePos s1\<rparr>] \<and>
     Header s = (Header s1)\<lparr>DebugTableCount := 5\<rparr> \<and>
     currentTablePos s = 5 \<and> stray s = stray s1 \<and>
     s_DebugGlobals s = s_DebugGlobals s1 \<and> s_DebugTypes s = s_DebugTypes s1 \<and>
     s_DebugFields s = s_DebugFields s1 \<and> s_DebugBases s = s_DebugBases s1 \<and>
     s_DebugDefines s = s_DebugDefines s1 \<and>
     currentGlobalPos s = currentGlobalPos s1 \<and> currentTypePos s = currentTypePos s1 \<and>
     currentFieldPos s = currentFieldPos s1 \<and> currentBasePos s = currentBasePos s1 \<and>
     currentDefinePos s = currentDefinePos s1 \<and> TypeIds s = TypeIds s1"
  using assms
  by (simp add: make_tables_def exec.simps Let_def ASSERT_def store_row_def stray_store_def
      DebugTablesArraySize_def five_stores)

lemma exec_ASSERT:
  "ASSERT_enabled t \<Longrightarrow> exec t x s = Inr s' \<Longrightarrow>
   (case x of
      MAKE_GLOBAL_ENTRY n \<Rightarrow> unat (currentGlobalPos s + 1) \<le> DebugGlobalsArraySize
    | MAKE_TYPE_ENTRY_WITH_ID T i \<Rightarrow> unat (currentTypePos s + 1) \<le> DebugTypesArraySize
    | MAKE_BASE_TYPE_ENTRY_WITH_ID T i B F \<Rightarrow> unat (currentBasePos s + 1) \<le> DebugBasesArraySize
    | MAKE_FIELD_ENTRY_WITH_ID T i F \<Rightarrow> unat (currentFieldPos s + 1) \<le> DebugFieldsArraySize
    | MAKE_DEFINE_ENTRY n v \<Rightarrow> unat (currentDefinePos s + 1) \<le> DebugDefinesArraySize
    | MAKE_TABLE n a c \<Rightarrow> unat (currentTablePos s + 1) \<le> DebugTablesArraySize
    | SET_DebugTableCount \<Rightarrow> True)"
  by (cases x) (auto simp: exec.simps Let_def ASSERT_def split: if_splits option.splits)

lemma run_ASSERT_capacity:
  "ASSERT_enabled t \<Longrightarrow> run t xs initial_state = Inr s \<Longrightarrow> within_capacity t xs"
proof (induction xs arbitrary: s rule: rev_induct)
  case Nil
  then show ?case by (simp add: within_capacity_def)
next
  case (snoc x xs)
  then obtain s1 where r: "run t xs initial_state = Inr s1" and e: "exec t x s1 = Inr s"
    by (auto simp: run_snoc split: sum.splits)
  from snoc.IH[OF snoc.prems(1) r] have ih: "within_capacity t xs" .
  note pos = run_positions[OF r] and a = exec_ASSERT[OF snoc.prems(1) e]
  show ?case
  proof (cases x)
    case (MAKE_GLOBAL_ENTRY n)
    with ih a pos show ?thesis
      by (simp add: within_capacity_def globals_of_append declared_append fields_of_append
          bases_of_append defines_of_append unat_of_nat_Suc capacity_defs)
  next
    case (MAKE_TYPE_ENTRY_WITH_ID T i)
    with ih a pos show ?thesis
      by (simp add: within_capacity_def globals_of_append declared_append fields_of_append
          bases_of_append defines_of_append unat_of_nat_Suc capacity_defs)
  next
    case (MAKE_BASE_TYPE_ENTRY_WITH_ID T i B F)
    with ih a pos show ?thesis
      by (simp add: within_capacity_def globals_of_append declared_append fields_of_append
          bases_of_append defines_of_append unat_of_nat_Suc capacity_defs)
  next
    case (MAKE_FIELD_ENTRY_WITH_ID T i F)
    with ih a pos show ?thesis
      by (simp add: within_capacity_def globals_of_append declared_append fields_of_append
          bases_of_append defines_of_append unat_of_nat_Suc capacity_defs)
  next
    case (MAKE_DEFINE_ENTRY n v)
    with ih a pos show ?thesis
      by (simp add: within_capacity_def globals_of_append declared_append fields_of_append
          bases_of_append defines_of_append unat_of_nat_Suc capacity_defs)
  next
    case (MAKE_TABLE n a c)
    with ih show ?thesis
      by (simp add: within_capacity_def globals_of_append declared_append fields_of_append
          bases_of_append defines_of_append)
  next
    case SET_DebugTableCount
    with ih show ?thesis
      by (simp add: within_capacity_def globals_of_append declared_append fields_of_append
          bases_of_append defines_of_append)
  qed
qed

lemma trace_nth:
  "run t xs s = Inr s' \<Longrightarrow> k \<le> length xs \<Longrightarrow> run t (take k xs) s = Inr (trace t xs s ! k)"
proof (induction xs arbitrary: s k)
  case Nil
  then show ?case by simp
next
  case (Cons x xs)
  then obtain s1 where e: "exec t x s = Inr s1" and r: "run t xs s1 = Inr s'"
    by (auto split: sum.splits)
  show ?case
  proof (cases k)
    case 0
    then show ?thesis by simp
  next
    case (Suc j)
    with Cons.prems(2) Cons.IH[OF r, of j] e show ?thesis by simp
  qed
qed

lemma trace_length: "run t xs s = Inr s' \<Longrightarrow> length (trace t xs s) = Suc (length xs)"
proof (induction xs arbitrary: s)
  case Nil
  then show ?case by simp
next
  case (Cons x xs)
  then obtain s1 where e: "exec t x s = Inr s1" and r: "run t xs s1 = Inr s'"
    by (auto split: sum.splits)
  from Cons.IH[OF r] e show ?case by simp
qed

lemma trace_last: "run t xs s = Inr s' \<Longrightarrow> trace t xs s ! length xs = s'"
  using trace_nth[of t xs s s' "length xs"] by simp

lemma well_scoped_fresh: "well_scoped ds xs \<Longrightarrow> i \<in> set ds \<Longrightarrow> i \<notin> set (declared xs)"
proof (induction ds xs rule: well_scoped.induct)
  case (2 ds T j xs)
  from "2.prems" have "well_scoped (ds @ [j]) xs" and "j \<notin> set ds" by simp_all
  with "2.IH" "2.prems"(2) show ?case by fastforce
qed simp_all

lemma well_scoped_weaken:
  "well_scoped ds xs \<Longrightarrow> set ds \<subseteq> set ds' \<Longrightarrow> \<forall>i\<in>set ds'. i \<notin> set (declared xs) \<Longrightarrow>
   well_scoped ds' xs"
proof (induction ds xs arbitrary: ds' rule: well_scoped.induct)
  case (1 ds)
  then show ?case by simp
next
  case (2 ds T i xs)
  from "2.prems"(1) have a: "well_scoped (ds @ [i]) xs" by simp
  from "2.prems"(3) have b: "i \<notin> set ds'" by auto
  from "2.prems"(2) have c: "set (ds @ [i]) \<subseteq> set (ds' @ [i])" by fastforce
  from well_scoped_fresh[OF a, of i] have "i \<notin> set (declared xs)" by simp
  with "2.prems"(3) have d: "\<forall>k\<in>set (ds' @ [i]). k \<notin> set (declared xs)" by auto
  from "2.IH"[OF a c d] b show ?case by simp
next
  case (3 ds T i F xs)
  from "3.prems" have "well_scoped ds xs" "\<forall>k\<in>set ds'. k \<notin> set (declared xs)" "i \<in> set ds'"
    by (simp, simp, fastforce)
  with "3.IH"[of ds'] "3.prems"(2) show ?case by simp
next
  case (4 ds T i B F xs)
  from "4.prems" have "well_scoped ds xs" "\<forall>k\<in>set ds'. k \<notin> set (declared xs)" "i \<in> set ds'"
    by (simp, simp, fastforce)
  with "4.IH"[of ds'] "4.prems"(2) show ?case by simp
qed simp_all

lemma well_scoped_concat:
  assumes "well_scoped [] xs" and "well_scoped [] ys" and "distinct (declared (xs @ ys))"
  shows "well_scoped [] (xs @ ys)"
proof -
  from assms(3) have "\<forall>i\<in>set (declared xs). i \<notin> set (declared ys)"
    by (fastforce simp: declared_append)
  with well_scoped_weaken[OF assms(2), of "declared xs"] have "well_scoped ([] @ declared xs) ys"
    by simp
  with assms(1) show ?thesis by (simp add: well_scoped_append)
qed

lemma length_fields_of_filter:
  "length (fields_of t ds xs) =
   length (filter (\<lambda>x. case x of MAKE_FIELD_ENTRY_WITH_ID T i F \<Rightarrow> True | _ \<Rightarrow> False) xs)"
  by (induction t ds xs rule: fields_of.induct) simp_all

lemma length_bases_of_filter:
  "length (bases_of t ds xs) =
   length (filter (\<lambda>x. case x of MAKE_BASE_TYPE_ENTRY_WITH_ID T i B F \<Rightarrow> True | _ \<Rightarrow> False) xs)"
  by (induction t ds xs rule: bases_of.induct) simp_all

lemma distinct_declared_appendD:
  "distinct (declared (xs @ ys)) \<Longrightarrow> distinct (declared ys)"
  by (simp add: declared_append)

section \<open>The registrations of PopulateClrDebugHeaders\<close>

text \<open>
  Facts about the statement lists of the function body, each obtained by evaluating one
  piece of the body: what kind of statements it holds, how many rows of each category
  it registers, which identifiers it declares, and that its identifiers are in scope.
\<close>

lemmas body_defs = lines_180_255_def lines_257_335_def lines_337_405_def
  lines_407_475_def lines_477_481_def MAKE_TYPE_ENTRY_def MAKE_FIELD_ENTRY_def MAKE_BASE_TYPE_ENTRY_def

lemma chunks_are_registrations:
  "list_all is_registration (lines_180_255 t)"
  "list_all is_registration (lines_257_335 t)"
  "list_all is_registration (lines_337_405 t)"
  "list_all is_registration (lines_407_475 t)"
  "list_all is_registration (lines_477_481 t)"
  by (simp_all add: body_defs)

lemma chunks_globals:
  "length (globals_of (lines_180_255 t)) = 1"
  "length (globals_of (lines_257_335 t)) = 2"
  "length (globals_of (lines_337_405 t)) = 2"
  "length (globals_of (lines_407_475 t)) = 3"
  "length (globals_of (lines_477_481 t)) = 0"
  by (simp_all add: body_defs)

lemma chunks_declared:
  "declared (lines_180_255 t) =
     [''ThreadStoreTypeId'',
      ''ThreadTypeId'',
      ''MethodTableTypeId'',
      ''MethodDescTypeId'',
      ''FCallMethodDescTypeId'',
      ''NDirectMethodDescTypeId'',
      ''EEImplMethodDescTypeId'',
      ''ArrayMethodDescTypeId'',
      ''InstantiatedMethodDescTypeId'',
      ''DynamicMethodDescTypeId'',
      ''MethodDescChunkTypeId'',
      ''MethodImplTypeId'',
      ''TypeDescTypeId'',
      ''ParamTypeDescTypeId'',
      ''GenericsDictInfoTypeId'',
      ''MethodTableWriteableDataTypeId'']"
  "declared (lines_257_335 t) =
     [''ModuleTypeId'',
      ''PEAssemblyTypeId'',
      ''PEImageTypeId'',
      ''PEDecoderTypeId'',
      ''PEImageLayoutTypeId'',
      ''EEClassTypeId'',
      ''ArrayClassTypeId'',
      ''LoaderHeapTypeId'',
      ''LoaderAllocatorTypeId'',
      ''GlobalLoaderAllocatorTypeId'',
      ''LookupMapBaseTypeId'',
      ''LookupMap_MethodDesc_Ptr'',
      ''BucketTypeId'',
      ''HashMapTypeId'',
      ''PtrHashMapTypeId'',
      ''AppDomainTypeId'',
      ''SystemDomainTypeId'',
      ''AppDomain_DomainAssemblyList'']"
  "declared (lines_337_405 t) =
     [''DomainAssemblyTypeId'',
      ''ArrayListBaseTypeId'',
      ''ArrayListTypeId'',
      ''DictionaryTypeId'',
      ''ArrayListBase_ArrayListBlock'',
      ''AssemblyTypeId'',
      ''ClassLoaderTypeId'',
      ''ReadyToRunInfoTypeId'',
      ''RUNTIME_FUNCTIONTypeId'',
      ''GcDacVarsTypeId'',
      ''dac_gc_heapTypeId'',
      ''gc_alloc_contextTypeId'',
      ''dac_generationTypeId'']"
  "declared (lines_407_475 t) =
     [''dac_heap_segmentTypeId'',
      ''SBufferTypeId'',
      ''SStringTypeId'',
      ''HeapListTypeId'',
      ''ObjectTypeId'',
      ''ExceptionObjectTypeId'',
      ''StringObjectTypeId'',
      ''ArrayBaseTypeId'',
      ''StackTraceArray_ArrayHeader'',
      ''StackTraceElementTypeId'',
      ''_hpRealCodeHdrTypeId'',
      ''EEJitManagerTypeId'',
      ''RangeSectionMapDataTypeId'',
      ''ReadyToRunJitManagerTypeId'']"
  "declared (lines_477_481 t) = []"
  by (simp_all add: body_defs)

lemma chunks_fields:
  "length (fields_of t ds (lines_180_255 t)) = 37"
  "length (fields_of t ds (lines_257_335 t)) = 35"
  "length (fields_of t ds (lines_337_405 t)) = 40"
  "length (fields_of t ds (lines_407_475 t)) = 35"
  "length (fields_of t ds (lines_477_481 t)) = 0"
  by (simp_all add: body_defs length_fields_of_filter)

lemma chunks_bases:
  "length (bases_of t ds (lines_180_255 t)) = 7"
  "length (bases_of t ds (lines_257_335 t)) = 3"
  "length (bases_of t ds (lines_337_405 t)) = 1"
  "length (bases_of t ds (lines_407_475 t)) = 4"
  "length (bases_of t ds (lines_477_481 t)) = 0"
  by (simp_all add: body_defs length_bases_of_filter)

lemma chunks_defines:
  "length (defines_of t (lines_180_255 t)) = 0"
  "length (defines_of t (lines_257_335 t)) = 3"
  "length (defines_of t (lines_337_405 t)) = 0"
  "length (defines_of t (lines_407_475 t)) = 0"
  "length (defines_of t (lines_477_481 t)) = (if FEATURE_EH_FUNCLETS t then 3 else 2)"
  by (simp_all add: body_defs)

lemma chunks_well_scoped:
  "well_scoped [] (lines_180_255 t)"
  "well_scoped [] (lines_257_335 t)"
  "well_scoped [] (lines_337_405 t)"
  "well_scoped [] (lines_407_475 t)"
  "well_scoped [] (lines_477_481 t)"
  by (simp_all add: body_defs)

lemma registrations_are_registrations: "list_all is_registration (registrations t)"
  by (simp add: registrations_def chunks_are_registrations)

lemma registrations_counts:
  "length (globals_of (registrations t)) = 8"
  "length (declared (registrations t)) = 61"
  "length (fields_of t [] (registrations t)) = 147"
  "length (bases_of t [] (registrations t)) = 15"
  "length (defines_of t (registrations t)) = (if FEATURE_EH_FUNCLETS t then 6 else 5)"
  by (simp_all add: registrations_def globals_of_append declared_append fields_of_append
      bases_of_append defines_of_append chunks_globals chunks_declared chunks_fields
      chunks_bases chunks_defines)

lemma registrations_distinct: "distinct (declared (registrations t))"
  by (simp add: registrations_def declared_append chunks_declared)

lemma registrations_well_scoped: "well_scoped [] (registrations t)"
proof -
  note d1 = registrations_distinct[of t, unfolded registrations_def]
  note d2 = distinct_declared_appendD[OF d1]
  note d3 = distinct_declared_appendD[OF d2]
  note d4 = distinct_declared_appendD[OF d3]
  show ?thesis unfolding registrations_def
    by (intro well_scoped_concat chunks_well_scoped d1 d2 d3 d4)
qed

lemma registrations_within_capacity: "within_capacity t (registrations t)"
  by (simp add: within_capacity_def registrations_counts capacity_defs)

lemma registration_not_SET: "list_all is_registration xs \<Longrightarrow> SET_DebugTableCount \<notin> set xs"
  by (induction xs) auto

lemma run_registrations:
  assumes reg: "list_all is_registration regs" and cap: "within_capacity t regs"
    and r: "run t regs initial_state = Inr s1"
  shows "s_DebugGlobals s1 = filled DebugGlobalsArraySize (globals_of regs)"
    and "s_DebugTypes s1 = filled DebugTypesArraySize (types_of t regs)"
    and "s_DebugFields s1 = filled DebugFieldsArraySize (fields_of t [] regs)"
    and "s_DebugBases s1 = filled DebugBasesArraySize (bases_of t [] regs)"
    and "s_DebugDefines s1 = filled DebugDefinesArraySize (defines_of t regs)"
    and "s_DebugTables s1 = replicate DebugTablesArraySize None"
    and "currentTablePos s1 = 0"
    and "Header s1 = ClrDebugHeader_init"
    and "stray s1 = []"
proof -
  from cap have c: "length (globals_of regs) \<le> DebugGlobalsArraySize"
    "length (declared regs) \<le> DebugTypesArraySize"
    "length (fields_of t [] regs) \<le> DebugFieldsArraySize"
    "length (bases_of t [] regs) \<le> DebugBasesArraySize"
    "length (defines_of t regs) \<le> DebugDefinesArraySize"
    by (simp_all add: within_capacity_def)
  show "s_DebugGlobals s1 = filled DebugGlobalsArraySize (globals_of regs)"
    using run_s_DebugGlobals[OF r c(1)] by (simp add: filled_def)
  show "s_DebugTypes s1 = filled DebugTypesArraySize (types_of t regs)"
    using run_s_DebugTypes[OF r c(2)] by (simp add: filled_def)
  show "s_DebugFields s1 = filled DebugFieldsArraySize (fields_of t [] regs)"
    using run_s_DebugFields[OF r c(3)] by (simp add: filled_def)
  show "s_DebugBases s1 = filled DebugBasesArraySize (bases_of t [] regs)"
    using run_s_DebugBases[OF r c(4)] by (simp add: filled_def)
  show "s_DebugDefines s1 = filled DebugDefinesArraySize (defines_of t regs)"
    using run_s_DebugDefines[OF r c(5)] by (simp add: filled_def)
  from run_registration_frame[OF r reg]
  show "s_DebugTables s1 = replicate DebugTablesArraySize None" and "currentTablePos s1 = 0"
    by (simp_all add: initial_state_def)
  from run_Header_frame[OF r registration_not_SET[OF reg]]
  show "Header s1 = ClrDebugHeader_init" by (simp add: initial_state_def)
  from run_stray[OF r reg cap] show "stray s1 = []" .
qed

lemma finalize_after_registrations:
  assumes reg: "list_all is_registration regs" and cap: "within_capacity t regs"
    and r: "run t regs initial_state = Inr s1"
  shows "\<exists>s. run t (regs @ make_tables @ [SET_DebugTableCount]) initial_state = Inr s \<and>
     s_DebugTables s = map Some (directory_of t regs) \<and>
     Header s = ClrDebugHeader_init\<lparr>DebugTableCount := 5\<rparr> \<and>
     currentTablePos s = 5 \<and> stray s = [] \<and>
     s_DebugGlobals s = filled DebugGlobalsArraySize (globals_of regs) \<and>
     s_DebugTypes s = filled DebugTypesArraySize (types_of t regs) \<and>
     s_DebugFields s = filled DebugFieldsArraySize (fields_of t [] regs) \<and>
     s_DebugBases s = filled DebugBasesArraySize (bases_of t [] regs) \<and>
     s_DebugDefines s = filled DebugDefinesArraySize (defines_of t regs) \<and>
     currentGlobalPos s = of_nat (length (globals_of regs)) \<and>
     currentTypePos s = of_nat (length (declared regs)) \<and>
     currentFieldPos s = of_nat (length (fields_of t [] regs)) \<and>
     currentBasePos s = of_nat (length (bases_of t [] regs)) \<and>
     currentDefinePos s = of_nat (length (defines_of t regs))"
proof -
  note f = run_registrations[OF reg cap r] and pos = run_positions[OF r]
  from run_finalize[OF f(6) f(7), of t] obtain s
    where "run t (make_tables @ [SET_DebugTableCount]) s1 = Inr s"
      and "s_DebugTables s =
       [Some \<lparr>TableName = ''Global'', TableElements = Addr_s_DebugGlobals, RowCount = currentGlobalPos s1\<rparr>,
        Some \<lparr>TableName = ''Type'', TableElements = Addr_s_DebugTypes, RowCount = currentTypePos s1\<rparr>,
        Some \<lparr>TableName = ''Field'', TableElements = Addr_s_DebugFields, RowCount = currentFieldPos s1\<rparr>,
        Some \<lparr>TableName = ''Base'', TableElements = Addr_s_DebugBases, RowCount = currentBasePos s1\<rparr>,
        Some \<lparr>TableName = ''Define'', TableElements = Addr_s_DebugDefines, RowCount = currentDefinePos s1\<rparr>]"
      and "Header s = (Header s1)\<lparr>DebugTableCount := 5\<rparr>"
      and "currentTablePos s = 5" and "stray s = stray s1"
      and "s_DebugGlobals s = s_DebugGlobals s1" and "s_DebugTypes s = s_DebugTypes s1"
      and "s_DebugFields s = s_DebugFields s1" and "s_DebugBases s = s_DebugBases s1"
      and "s_DebugDefines s = s_DebugDefines s1"
      and "currentGlobalPos s = currentGlobalPos s1" and "currentTypePos s = currentTypePos s1"
      and "currentFieldPos s = currentFieldPos s1" and "currentBasePos s = currentBasePos s1"
      and "currentDefinePos s = currentDefinePos s1"
    by blast
  with r f pos show ?thesis
    by (simp add: run_append directory_of_def length_types_of)
qed

lemma populate_succeeds:
  "\<exists>s1. run t (registrations t) initial_state = Inr s1"
  using run_succeeds[OF registrations_well_scoped registrations_are_registrations
      registrations_within_capacity] .

lemma Inr_projr: "\<exists>s. x = Inr s \<Longrightarrow> x = Inr (projr x)"
  by auto

lemma finalize_succeeds:
  assumes "well_scoped [] regs" and "list_all is_registration regs" and "within_capacity t regs"
  shows "\<exists>s. run t (regs @ make_tables @ [SET_DebugTableCount]) initial_state = Inr s"
proof -
  from run_succeeds[OF assms] obtain s1 where "run t regs initial_state = Inr s1" ..
  from finalize_after_registrations[OF assms(2,3) this] show ?thesis by blast
qed

lemma populate_returns: "\<exists>s. PopulateClrDebugHeaders t = Inr s"
  unfolding PopulateClrDebugHeaders_def body_def
  by (rule finalize_succeeds[OF registrations_well_scoped registrations_are_registrations
        registrations_within_capacity])

lemma trace_head: "s \<in> set (trace t xs s)"
  by (cases xs) simp_all

lemma exec_stray_mono: "exec t x s = Inr s' \<Longrightarrow> stray s' = [] \<Longrightarrow> stray s = []"
  by (cases x) (auto dest!: exec_elims simp: stray_store_def split: if_splits)

lemma run_stray_mono: "run t xs s = Inr s' \<Longrightarrow> stray s' = [] \<Longrightarrow> stray s = []"
proof (induction xs arbitrary: s)
  case Nil
  then show ?case by simp
next
  case (Cons x xs)
  then obtain s1 where e: "exec t x s = Inr s1" and r: "run t xs s1 = Inr s'"
    by (auto split: sum.splits)
  from Cons.IH[OF r Cons.prems(2)] exec_stray_mono[OF e] show ?case by simp
qed

lemma trace_stray:
  "run t xs s = Inr sF \<Longrightarrow> stray sF = [] \<Longrightarrow> s' \<in> set (trace t xs s) \<Longrightarrow> stray s' = []"
proof (induction xs arbitrary: s)
  case Nil
  then show ?case by simp
next
  case (Cons x xs)
  then obtain s1 where e: "exec t x s = Inr s1" and r: "run t xs s1 = Inr sF"
    by (auto split: sum.splits)
  from Cons.prems(3) e have "s' = s \<or> s' \<in> set (trace t xs s1)" by simp
  then show ?case
  proof
    assume "s' = s"
    with run_stray_mono[OF Cons.prems(1,2)] show ?thesis by simp
  next
    assume "s' \<in> set (trace t xs s1)"
    from Cons.IH[OF r Cons.prems(2) this] show ?thesis .
  qed
qed

lemma trace_Header_identity:
  "s' \<in> set (trace t xs s) \<Longrightarrow>
   Cookie (Header s') = Cookie (Header s) \<and> MajorVersion (Header s') = MajorVersion (Header s) \<and>
   MinorVersion (Header s') = MinorVersion (Header s) \<and> DebugTables (Header s') = DebugTables (Header s)"
proof (induction xs arbitrary: s)
  case Nil
  then show ?case by simp
next
  case (Cons x xs)
  show ?case
  proof (cases "s' = s")
    case True
    then show ?thesis by simp
  next
    case False
    with Cons.prems obtain s1 where e: "exec t x s = Inr s1" and m: "s' \<in> set (trace t xs s1)"
      by (cases "exec t x s") auto
    from Cons.IH[OF m] exec_Header[OF e] show ?thesis by (simp split: if_splits)
  qed
qed

lemma unat_of_nat_cap: "n \<le> 200 \<Longrightarrow> unat (of_nat n :: 32 word) = n"
  by (intro unat_of_nat_small) simp

lemma finalize_result:
  assumes reg: "list_all is_registration regs" and cap: "within_capacity t regs"
    and r: "run t (regs @ make_tables @ [SET_DebugTableCount]) initial_state = Inr s"
  shows "s_DebugTables s = map Some (directory_of t regs)"
    and "Header s = ClrDebugHeader_init\<lparr>DebugTableCount := 5\<rparr>"
    and "s_DebugGlobals s = filled DebugGlobalsArraySize (globals_of regs)"
    and "s_DebugTypes s = filled DebugTypesArraySize (types_of t regs)"
    and "s_DebugFields s = filled DebugFieldsArraySize (fields_of t [] regs)"
    and "s_DebugBases s = filled DebugBasesArraySize (bases_of t [] regs)"
    and "s_DebugDefines s = filled DebugDefinesArraySize (defines_of t regs)"
proof -
  from r obtain s1 where r1: "run t regs initial_state = Inr s1"
    by (auto simp: run_append split: sum.splits)
  from finalize_after_registrations[OF reg cap r1] r
  show "s_DebugTables s = map Some (directory_of t regs)"
    and "Header s = ClrDebugHeader_init\<lparr>DebugTableCount := 5\<rparr>"
    and "s_DebugGlobals s = filled DebugGlobalsArraySize (globals_of regs)"
    and "s_DebugTypes s = filled DebugTypesArraySize (types_of t regs)"
    and "s_DebugFields s = filled DebugFieldsArraySize (fields_of t [] regs)"
    and "s_DebugBases s = filled DebugBasesArraySize (bases_of t [] regs)"
    and "s_DebugDefines s = filled DebugDefinesArraySize (defines_of t regs)"
    by auto
qed

lemma directory_counts:
  assumes "within_capacity t regs"
  shows "map (unat \<circ> RowCount) (directory_of t regs) =
     [length (globals_of regs), length (types_of t regs), length (fields_of t [] regs),
      length (bases_of t [] regs), length (defines_of t regs)]"
  using assms
  by (simp add: directory_of_def within_capacity_def length_types_of unat_of_nat_cap capacity_defs)

lemma point_facts:
  "well_scoped [] (point_registrations t)" "list_all is_registration (point_registrations t)"
  "within_capacity t' (point_registrations t)"
  by (simp_all add: point_registrations_def MAKE_TYPE_ENTRY_def MAKE_FIELD_ENTRY_def
      within_capacity_def capacity_defs)


lemma trace_final_mem: "run t xs s = Inr s' \<Longrightarrow> s' \<in> set (trace t xs s)"
  using trace_last[of t xs s s'] trace_length[of t xs s s']
  by (metis lessI nth_mem)





lemma index_of_less: "i \<in> set ds \<Longrightarrow> index_of ds i < length ds"
  by (induction ds) auto

lemma index_of_nth: "distinct ds \<Longrightarrow> k < length ds \<Longrightarrow> index_of ds (ds ! k) = k"
proof (induction ds arbitrary: k)
  case Nil
  then show ?case by simp
next
  case (Cons d ds)
  then show ?case by (cases k) auto
qed

lemma declared_mem: "MAKE_TYPE_ENTRY_WITH_ID T i \<in> set xs \<Longrightarrow> i \<in> set (declared xs)"
  by (induction xs rule: declared.induct) auto

lemma types_of_index:
  "MAKE_TYPE_ENTRY_WITH_ID T i \<in> set xs \<Longrightarrow> distinct (declared xs) \<Longrightarrow>
   types_of t xs ! index_of (declared xs) i = \<lparr>TypeName = T, Size = ucast (sizeof t T)\<rparr>"
proof (induction xs rule: declared.induct)
  case 1
  then show ?case by simp
next
  case (2 T' j xs)
  show ?case
  proof (cases "j = i")
    case True
    with "2.prems" declared_mem[of T i xs] have "T' = T" by auto
    with True show ?thesis by simp
  next
    case False
    with "2.prems" "2.IH" show ?thesis by simp
  qed
qed simp_all

lemma run_snoc_succeeds:
  assumes "well_scoped [] (pre @ [x])" and "list_all is_registration (pre @ [x])"
    and "within_capacity t (pre @ [x])"
  shows "\<exists>s s'. run t pre initial_state = Inr s \<and> exec t x s = Inr s' \<and>
           run t (pre @ [x]) initial_state = Inr s'"
proof -
  from run_succeeds[OF assms] obtain s' where "run t (pre @ [x]) initial_state = Inr s'" ..
  then show ?thesis by (auto simp: run_snoc split: sum.splits)
qed

lemma body_rows:
  "globals_of (registrations t) =
     [\<lparr>GlobalName = ''ThreadStore::s_pThreadStore'', Address = Addr_of ''ThreadStore::s_pThreadStore''\<rparr>,
      \<lparr>GlobalName = ''AppDomain::m_pTheAppDomain'', Address = Addr_of ''AppDomain::m_pTheAppDomain''\<rparr>,
      \<lparr>GlobalName = ''SystemDomain::m_pSystemDomain'', Address = Addr_of ''SystemDomain::m_pSystemDomain''\<rparr>,
      \<lparr>GlobalName = ''g_gcDacGlobals'', Address = Addr_of ''g_gcDacGlobals''\<rparr>,
      \<lparr>GlobalName = ''g_pFreeObjectMethodTable'', Address = Addr_of ''g_pFreeObjectMethodTable''\<rparr>,
      \<lparr>GlobalName = ''ExecutionManager::m_pEEJitManager'', Address = Addr_of ''ExecutionManager::m_pEEJitManager''\<rparr>,
      \<lparr>GlobalName = ''ExecutionManager::g_codeRangeMap'', Address = Addr_of ''ExecutionManager::g_codeRangeMap''\<rparr>,
      \<lparr>GlobalName = ''ExecutionManager::m_pReadyToRunJitManager'',
       Address = Addr_of ''ExecutionManager::m_pReadyToRunJitManager''\<rparr>]"
  "FEATURE_EH_FUNCLETS t \<Longrightarrow> defines_of t (registrations t) =
     [\<lparr>DefineName = ''IMAGE_FLAT'', DefineValue = value_of t ''PEImage::IMAGE_FLAT''\<rparr>,
      \<lparr>DefineName = ''IMAGE_LOADED'', DefineValue = value_of t ''PEImage::IMAGE_LOADED''\<rparr>,
      \<lparr>DefineName = ''IMAGE_COUNT'', DefineValue = value_of t ''PEImage::IMAGE_COUNT''\<rparr>,
      \<lparr>DefineName = ''MinObjectSize'', DefineValue = value_of t ''MIN_OBJECT_SIZE''\<rparr>,
      \<lparr>DefineName = ''FEATURE_EH_FUNCLETS'', DefineValue = value_of t ''FEATURE_EH_FUNCLETS''\<rparr>,
      \<lparr>DefineName = ''UNION_METHODTABLE'', DefineValue = value_of t ''MethodTable::UNION_METHODTABLE''\<rparr>]"
proof -
  have g: "globals_of (lines_180_255 t) =
      [\<lparr>GlobalName = ''ThreadStore::s_pThreadStore'', Address = Addr_of ''ThreadStore::s_pThreadStore''\<rparr>]"
    "globals_of (lines_257_335 t) =
      [\<lparr>GlobalName = ''AppDomain::m_pTheAppDomain'', Address = Addr_of ''AppDomain::m_pTheAppDomain''\<rparr>,
       \<lparr>GlobalName = ''SystemDomain::m_pSystemDomain'', Address = Addr_of ''SystemDomain::m_pSystemDomain''\<rparr>]"
    "globals_of (lines_337_405 t) =
      [\<lparr>GlobalName = ''g_gcDacGlobals'', Address = Addr_of ''g_gcDacGlobals''\<rparr>,
       \<lparr>GlobalName = ''g_pFreeObjectMethodTable'', Address = Addr_of ''g_pFreeObjectMethodTable''\<rparr>]"
    "globals_of (lines_407_475 t) =
      [\<lparr>GlobalName = ''ExecutionManager::m_pEEJitManager'', Address = Addr_of ''ExecutionManager::m_pEEJitManager''\<rparr>,
       \<lparr>GlobalName = ''ExecutionManager::g_codeRangeMap'', Address = Addr_of ''ExecutionManager::g_codeRangeMap''\<rparr>,
       \<lparr>GlobalName = ''ExecutionManager::m_pReadyToRunJitManager'',
        Address = Addr_of ''ExecutionManager::m_pReadyToRunJitManager''\<rparr>]"
    "globals_of (lines_477_481 t) = []"
    by (simp_all add: body_defs)
  show "globals_of (registrations t) =
     [\<lparr>GlobalName = ''ThreadStore::s_pThreadStore'', Address = Addr_of ''ThreadStore::s_pThreadStore''\<rparr>,
      \<lparr>GlobalName = ''AppDomain::m_pTheAppDomain'', Address = Addr_of ''AppDomain::m_pTheAppDomain''\<rparr>,
      \<lparr>GlobalName = ''SystemDomain::m_pSystemDomain'', Address = Addr_of ''SystemDomain::m_pSystemDomain''\<rparr>,
      \<lparr>GlobalName = ''g_gcDacGlobals'', Address = Addr_of ''g_gcDacGlobals''\<rparr>,
      \<lparr>GlobalName = ''g_pFreeObjectMethodTable'', Address = Addr_of ''g_pFreeObjectMethodTable''\<rparr>,
      \<lparr>GlobalName = ''ExecutionManager::m_pEEJitManager'', Address = Addr_of ''ExecutionManager::m_pEEJitManager''\<rparr>,
      \<lparr>GlobalName = ''ExecutionManager::g_codeRangeMap'', Address = Addr_of ''ExecutionManager::g_codeRangeMap''\<rparr>,
      \<lparr>GlobalName = ''ExecutionManager::m_pReadyToRunJitManager'',
       Address = Addr_of ''ExecutionManager::m_pReadyToRunJitManager''\<rparr>]"
    by (simp add: registrations_def globals_of_append g)
  assume f: "FEATURE_EH_FUNCLETS t"
  have d: "defines_of t (lines_180_255 t) = []"
    "defines_of t (lines_257_335 t) =
      [\<lparr>DefineName = ''IMAGE_FLAT'', DefineValue = value_of t ''PEImage::IMAGE_FLAT''\<rparr>,
       \<lparr>DefineName = ''IMAGE_LOADED'', DefineValue = value_of t ''PEImage::IMAGE_LOADED''\<rparr>,
       \<lparr>DefineName = ''IMAGE_COUNT'', DefineValue = value_of t ''PEImage::IMAGE_COUNT''\<rparr>]"
    "defines_of t (lines_337_405 t) = []"
    "defines_of t (lines_407_475 t) = []"
    "defines_of t (lines_477_481 t) =
      [\<lparr>DefineName = ''MinObjectSize'', DefineValue = value_of t ''MIN_OBJECT_SIZE''\<rparr>,
       \<lparr>DefineName = ''FEATURE_EH_FUNCLETS'', DefineValue = value_of t ''FEATURE_EH_FUNCLETS''\<rparr>,
       \<lparr>DefineName = ''UNION_METHODTABLE'', DefineValue = value_of t ''MethodTable::UNION_METHODTABLE''\<rparr>]"
    using f by (simp_all add: body_defs)
  show "defines_of t (registrations t) =
     [\<lparr>DefineName = ''IMAGE_FLAT'', DefineValue = value_of t ''PEImage::IMAGE_FLAT''\<rparr>,
      \<lparr>DefineName = ''IMAGE_LOADED'', DefineValue = value_of t ''PEImage::IMAGE_LOADED''\<rparr>,
      \<lparr>DefineName = ''IMAGE_COUNT'', DefineValue = value_of t ''PEImage::IMAGE_COUNT''\<rparr>,
      \<lparr>DefineName = ''MinObjectSize'', DefineValue = value_of t ''MIN_OBJECT_SIZE''\<rparr>,
      \<lparr>DefineName = ''FEATURE_EH_FUNCLETS'', DefineValue = value_of t ''FEATURE_EH_FUNCLETS''\<rparr>,
      \<lparr>DefineName = ''UNION_METHODTABLE'', DefineValue = value_of t ''MethodTable::UNION_METHODTABLE''\<rparr>]"
    by (simp add: registrations_def defines_of_append d)
qed

lemma body_first_base:
  "bases_of t [] (registrations t) ! 0 =
     \<lparr>MemberName = macro_expansion t ''MethodDesc'', TypeId = 4,
      Offset = ucast (offsetof t (macro_expansion t ''FCallMethodDesc'') (macro_expansion t ''m_chunkIndex'') -
                      offsetof t (macro_expansion t ''MethodDesc'') (macro_expansion t ''m_chunkIndex''))\<rparr>"
proof -
  have "take 1 (bases_of t [] (lines_180_255 t)) =
     [\<lparr>MemberName = macro_expansion t ''MethodDesc'', TypeId = 4,
      Offset = ucast (offsetof t (macro_expansion t ''FCallMethodDesc'') (macro_expansion t ''m_chunkIndex'') -
                      offsetof t (macro_expansion t ''MethodDesc'') (macro_expansion t ''m_chunkIndex''))\<rparr>]"
    by (simp add: body_defs)
  then show ?thesis
    by (simp add: registrations_def bases_of_append nth_append chunks_bases
        hd_conv_nth[symmetric] take_Suc_conv_app_nth split: if_splits)
qed


lemma nth_filled: "k < length rows \<Longrightarrow> length rows \<le> cap \<Longrightarrow> filled cap rows ! k = Some (rows ! k)"
  by (simp add: filled_def nth_append)


lemma unat_ucast_small:
  fixes w :: "'a::len word"
  shows "unat w < 2 ^ 32 \<Longrightarrow> unat (ucast w :: 32 word) = unat w"
  by (simp add: unsigned_ucast_eq take_bit_nat_eq_self)


lemma unat_Suc_at:
  fixes p :: uint32_t
  shows "unat p = n \<Longrightarrow> n < 1000 \<Longrightarrow> unat (p + 1) = Suc n"
proof -
  assume u: "unat p = n" and n: "n < 1000"
  have "p = of_nat (unat p)" by simp
  with u have "p = of_nat n" by simp
  with unat_of_nat_Suc[OF n] show ?thesis by simp
qed

lemma exec_scoped:
  assumes "well_scoped ds [x]" and "is_registration x"
    and "\<forall>i. map_of (TypeIds s) i = (if i \<in> set ds then Some (of_nat (index_of ds i)) else None)"
  shows "(\<exists>s'. exec t x s = Inr s') \<or> (\<exists>c. exec t x s = Inl (AssertFailed c))"
  using assms
  by (cases x) (auto simp: exec.simps Let_def ASSERT_def)

lemma run_faults_are_assertions:
  "well_scoped [] xs \<Longrightarrow> list_all is_registration xs \<Longrightarrow>
   (\<exists>s. run t xs initial_state = Inr s) \<or> (\<exists>c. run t xs initial_state = Inl (AssertFailed c))"
proof (induction xs rule: rev_induct)
  case Nil
  then show ?case by simp
next
  case (snoc x xs)
  from snoc.prems have ws: "well_scoped [] xs" and wx: "well_scoped (declared xs) [x]"
    and reg: "list_all is_registration xs" and rx: "is_registration x"
    by (simp_all add: well_scoped_append)
  from snoc.IH[OF ws reg] show ?case
  proof
    assume "\<exists>s. run t xs initial_state = Inr s"
    then obtain s where r: "run t xs initial_state = Inr s" ..
    from run_TypeIds[OF r] have "\<forall>i. map_of (TypeIds s) i =
        (if i \<in> set (declared xs) then Some (of_nat (index_of (declared xs) i)) else None)"
      by simp
    from exec_scoped[OF wx rx this, of t] r show ?thesis
      by (auto simp: run_snoc)
  next
    assume "\<exists>c. run t xs initial_state = Inl (AssertFailed c)"
    then show ?thesis by (auto simp: run_snoc)
  qed
qed

lemma replicate_globals_facts:
  "well_scoped ds (replicate n (MAKE_GLOBAL_ENTRY g))"
  "list_all is_registration (replicate n (MAKE_GLOBAL_ENTRY g))"
  "globals_of (replicate n (MAKE_GLOBAL_ENTRY g)) =
     replicate n \<lparr>GlobalName = g, Address = Addr_of g\<rparr>"
  "declared (replicate n (MAKE_GLOBAL_ENTRY g)) = []"
  "fields_of t ds (replicate n (MAKE_GLOBAL_ENTRY g)) = []"
  "bases_of t ds (replicate n (MAKE_GLOBAL_ENTRY g)) = []"
  "defines_of t (replicate n (MAKE_GLOBAL_ENTRY g)) = []"
  by (induction n) simp_all

lemma too_many_globals_facts:
  "too_many_globals = replicate DebugGlobalsArraySize (MAKE_GLOBAL_ENTRY ''g'') @ [MAKE_GLOBAL_ENTRY ''g'']"
  "well_scoped [] too_many_globals" "list_all is_registration too_many_globals"
  "\<not> within_capacity t too_many_globals"
  "within_capacity t (replicate DebugGlobalsArraySize (MAKE_GLOBAL_ENTRY ''g''))"
proof -
  show "too_many_globals = replicate DebugGlobalsArraySize (MAKE_GLOBAL_ENTRY ''g'') @ [MAKE_GLOBAL_ENTRY ''g'']"
    by (simp add: too_many_globals_def replicate_append_same)
  show "well_scoped [] too_many_globals" "list_all is_registration too_many_globals"
    unfolding too_many_globals_def by (rule replicate_globals_facts)+
  show "\<not> within_capacity t too_many_globals"
    unfolding too_many_globals_def within_capacity_def replicate_globals_facts by simp
  show "within_capacity t (replicate DebugGlobalsArraySize (MAKE_GLOBAL_ENTRY ''g''))"
    unfolding within_capacity_def replicate_globals_facts by simp
qed


lemma stores_append:
  "stores t (xs @ ys) s =
   stores t xs s @ (case run t xs s of Inl e \<Rightarrow> [] | Inr s' \<Rightarrow> stores t ys s')"
  by (induction xs arbitrary: s) (auto split: sum.splits)

lemma store_of_registration:
  "is_registration x \<Longrightarrow> e \<in> set (store_of t x s) \<Longrightarrow>
   fst e \<noteq> DebugTableCount_field \<and> (\<forall>k. fst e \<noteq> Cell Addr_s_DebugTables k)"
  by (cases x) (auto split: option.splits)

lemma stores_registrations:
  "list_all is_registration xs \<Longrightarrow> e \<in> set (stores t xs s) \<Longrightarrow>
   fst e \<noteq> DebugTableCount_field \<and> (\<forall>k. fst e \<noteq> Cell Addr_s_DebugTables k)"
proof (induction xs arbitrary: s)
  case Nil
  then show ?case by simp
next
  case (Cons x xs)
  from Cons.prems(2) have "e \<in> set (store_of t x s) \<or>
      (\<exists>s'. exec t x s = Inr s' \<and> e \<in> set (stores t xs s'))"
    by (auto split: sum.splits)
  then show ?case
  proof
    assume "e \<in> set (store_of t x s)"
    with Cons.prems(1) store_of_registration[of x e t s] show ?thesis by simp
  next
    assume "\<exists>s'. exec t x s = Inr s' \<and> e \<in> set (stores t xs s')"
    with Cons.prems(1) Cons.IH show ?thesis by auto
  qed
qed

lemma stores_finalize:
  assumes "s_DebugTables s1 = replicate DebugTablesArraySize None" and "currentTablePos s1 = 0"
  shows "stores t (make_tables @ [SET_DebugTableCount]) s1 =
     [(Cell Addr_s_DebugTables 0, Table_row \<lparr>TableName = ''Global'',
         TableElements = Addr_s_DebugGlobals, RowCount = currentGlobalPos s1\<rparr>),
      (Cell Addr_s_DebugTables 1, Table_row \<lparr>TableName = ''Type'',
         TableElements = Addr_s_DebugTypes, RowCount = currentTypePos s1\<rparr>),
      (Cell Addr_s_DebugTables 2, Table_row \<lparr>TableName = ''Field'',
         TableElements = Addr_s_DebugFields, RowCount = currentFieldPos s1\<rparr>),
      (Cell Addr_s_DebugTables 3, Table_row \<lparr>TableName = ''Base'',
         TableElements = Addr_s_DebugBases, RowCount = currentBasePos s1\<rparr>),
      (Cell Addr_s_DebugTables 4, Table_row \<lparr>TableName = ''Define'',
         TableElements = Addr_s_DebugDefines, RowCount = currentDefinePos s1\<rparr>),
      (DebugTableCount_field, Count 5)]"
  using assms
  by (simp add: make_tables_def exec.simps Let_def ASSERT_def store_row_def stray_store_def
      DebugTablesArraySize_def)

lemma memory_after_append:
  "memory_after (xs @ ys) m = memory_after ys (memory_after xs m)"
  by (induction xs arbitrary: m) simp_all

lemma memory_after_untouched:
  "\<forall>e \<in> set es. fst e \<noteq> l \<Longrightarrow> memory_after es m l = m l"
  by (induction es arbitrary: m) auto

lemma emitted_swap_last: "fst a \<noteq> fst b \<Longrightarrow> emitted (P @ [a, b]) (P @ [b, a])"
  by (auto simp: emitted_def)

lemma last_store_early_snoc2: "last_store_early (P @ [a, b]) = P @ [b, a]"
  by (simp add: last_store_early_def butlast_append)

lemma memory_after_swap_last:
  "fst a \<noteq> fst b \<Longrightarrow> memory_after (P @ [b, a]) m = memory_after (P @ [a, b]) m"
  by (auto simp: memory_after_append fun_upd_twist)


section \<open>The claims\<close>

subsection \<open>C1: the table count is published last\<close>



subsection \<open>C2: registering beyond capacity\<close>

text \<open>
  Claim C2 says that a registration on a table already at capacity halts the builder.
  The macros store first and check afterwards, with \<open>ASSERT\<close>, which a release build
  compiles out. In a release build the fifty-first Global registration returns: the
  position counter is 51, beyond the 50 cells of the array, and the row was stored past
  the end of the array.
\<close>

theorem release_build_overruns_counterexample:
  "run (point_target False) too_many_globals initial_state =
     Inr (projr (run (point_target False) too_many_globals initial_state)) \<and>
   unat (currentGlobalPos (projr (run (point_target False) too_many_globals initial_state))) = 51 \<and>
   stray (projr (run (point_target False) too_many_globals initial_state)) =
     [(Addr_s_DebugGlobals, 50)] \<and>
   DebugGlobalsArraySize = 50"
proof -
  let ?t = "point_target False"
  let ?pre = "replicate DebugGlobalsArraySize (MAKE_GLOBAL_ENTRY ''g'')"
  have a: "\<not> ASSERT_enabled ?t" by (simp add: point_target_def)
  have "\<exists>s. run ?t ?pre initial_state = Inr s"
    by (rule run_succeeds[OF replicate_globals_facts(1) replicate_globals_facts(2)
          too_many_globals_facts(5)])
  then obtain s where r: "run ?t ?pre initial_state = Inr s" ..
  from run_positions[OF r] have p: "currentGlobalPos s = 50"
    by (simp add: replicate_globals_facts capacity_defs)
  from run_lengths[OF r] have l: "length (s_DebugGlobals s) = 50"
    by (simp add: initial_lengths capacity_defs)
  from run_stray[OF r replicate_globals_facts(2) too_many_globals_facts(5)]
  have st: "stray s = []" .
  define s' where "s' = s\<lparr>s_DebugGlobals := store_row (s_DebugGlobals s) (currentGlobalPos s)
        \<lparr>GlobalName = ''g'', Address = Addr_of ''g''\<rparr>,
      stray := stray_store Addr_s_DebugGlobals (s_DebugGlobals s) (currentGlobalPos s) (stray s),
      currentGlobalPos := currentGlobalPos s + 1\<rparr>"
  from a have e: "exec ?t (MAKE_GLOBAL_ENTRY ''g'') s = Inr s'"
    by (simp add: exec.simps Let_def ASSERT_def s'_def)
  from r e have r': "run ?t too_many_globals initial_state = Inr s'"
    unfolding too_many_globals_facts(1) by (simp add: run_snoc)
  from p l st have "unat (currentGlobalPos s') = 51" "stray s' = [(Addr_s_DebugGlobals, 50)]"
    by (simp_all add: s'_def stray_store_def)
  with r' show ?thesis by (simp add: capacity_defs)
qed

text \<open>
  Claim C2 as amended. In a build with \<open>ASSERT\<close> compiled in, each of the five
  registration macros, run in a state whose table is at capacity, ends in the failure of
  its assertion and returns no state; and registrations in scope that exceed a capacity
  never run to completion: the run ends in a failed assertion.
\<close>

theorem capacity_assertions:
  assumes "ASSERT_enabled t"
  shows "(unat (currentGlobalPos s) = DebugGlobalsArraySize \<longrightarrow>
       exec t (MAKE_GLOBAL_ENTRY Name) s = Inl (AssertFailed currentGlobalPos_var)) \<and>
    (unat (currentTypePos s) = DebugTypesArraySize \<and> map_of (TypeIds s) i = None \<longrightarrow>
       exec t (MAKE_TYPE_ENTRY_WITH_ID T i) s = Inl (AssertFailed currentTypePos_var)) \<and>
    (unat (currentFieldPos s) = DebugFieldsArraySize \<and> map_of (TypeIds s) i = Some tid \<longrightarrow>
       exec t (MAKE_FIELD_ENTRY_WITH_ID T i F) s = Inl (AssertFailed currentFieldPos_var)) \<and>
    (unat (currentBasePos s) = DebugBasesArraySize \<and> map_of (TypeIds s) i = Some tid \<longrightarrow>
       exec t (MAKE_BASE_TYPE_ENTRY_WITH_ID T i B F) s = Inl (AssertFailed currentBasePos_var)) \<and>
    (unat (currentDefinePos s) = DebugDefinesArraySize \<longrightarrow>
       exec t (MAKE_DEFINE_ENTRY Name Value) s = Inl (AssertFailed currentDefinePos_var)) \<and>
    (well_scoped [] xs \<and> list_all is_registration xs \<and> \<not> within_capacity t xs \<longrightarrow>
       (\<exists>c. run t xs initial_state = Inl (AssertFailed c)))"
proof -
  have "\<exists>c. run t xs initial_state = Inl (AssertFailed c)"
    if "well_scoped [] xs" and "list_all is_registration xs" and "\<not> within_capacity t xs"
    using run_faults_are_assertions[OF that(1,2), of t] run_ASSERT_capacity[OF assms, of xs] that(3)
    by blast
  then show ?thesis
    using assms
    by (auto simp: exec.simps Let_def ASSERT_def unat_Suc_at capacity_defs)
qed

theorem capacity_assertions_witness:
  "ASSERT_enabled (point_target True) \<and>
   well_scoped [] too_many_globals \<and> list_all is_registration too_many_globals \<and>
   \<not> within_capacity (point_target True) too_many_globals \<and>
   run (point_target True) too_many_globals initial_state = Inl (AssertFailed currentGlobalPos_var) \<and>
   unat (currentGlobalPos (projr (run (point_target True)
      (replicate DebugGlobalsArraySize (MAKE_GLOBAL_ENTRY ''g'')) initial_state))) =
     DebugGlobalsArraySize \<and>
   exec (point_target True) (MAKE_GLOBAL_ENTRY ''g'')
     (projr (run (point_target True)
        (replicate DebugGlobalsArraySize (MAKE_GLOBAL_ENTRY ''g'')) initial_state)) =
     Inl (AssertFailed currentGlobalPos_var)"
proof -
  let ?t = "point_target True"
  let ?pre = "replicate DebugGlobalsArraySize (MAKE_GLOBAL_ENTRY ''g'')"
  have a: "ASSERT_enabled ?t" by (simp add: point_target_def)
  have "\<exists>s. run ?t ?pre initial_state = Inr s"
    by (rule run_succeeds[OF replicate_globals_facts(1) replicate_globals_facts(2)
          too_many_globals_facts(5)])
  then obtain s where r: "run ?t ?pre initial_state = Inr s" ..
  from run_positions[OF r] have p: "unat (currentGlobalPos s) = DebugGlobalsArraySize"
    by (simp add: replicate_globals_facts capacity_defs)
  from capacity_assertions[OF a, of s "''g''"] p
  have e: "exec ?t (MAKE_GLOBAL_ENTRY ''g'') s = Inl (AssertFailed currentGlobalPos_var)"
    by blast
  with r have "run ?t too_many_globals initial_state = Inl (AssertFailed currentGlobalPos_var)"
    unfolding too_many_globals_facts(1) by (simp add: run_snoc)
  with a p e r show ?thesis
    by (simp add: too_many_globals_facts(2,3,4))
qed

subsection \<open>C3: the directory after finalisation\<close>

text \<open>
  Claim C3. After any registrations within capacity, followed by the five \<open>MAKE_TABLE\<close>
  statements and the store of the table count, the directory holds exactly five
  entries, named Global, Type, Field, Base and Define in that order; each entry has
  the address of its row array and, as its row count, the number of rows registered in
  that category; the row arrays hold those rows; and the header's \<open>DebugTables\<close> pointer
  is the address of the directory.
\<close>

theorem directory_after_finalize:
  assumes "list_all is_registration regs" and "within_capacity t regs"
    and "run t (regs @ make_tables @ [SET_DebugTableCount]) initial_state = Inr s"
  shows "s_DebugTables s = map Some (directory_of t regs) \<and>
     length (s_DebugTables s) = 5 \<and>
     map TableName (directory_of t regs) = [''Global'', ''Type'', ''Field'', ''Base'', ''Define''] \<and>
     map TableElements (directory_of t regs) =
       [Addr_s_DebugGlobals, Addr_s_DebugTypes, Addr_s_DebugFields, Addr_s_DebugBases,
        Addr_s_DebugDefines] \<and>
     map (unat \<circ> RowCount) (directory_of t regs) =
       [length (globals_of regs), length (types_of t regs), length (fields_of t [] regs),
        length (bases_of t [] regs), length (defines_of t regs)] \<and>
     s_DebugGlobals s = filled DebugGlobalsArraySize (globals_of regs) \<and>
     s_DebugTypes s = filled DebugTypesArraySize (types_of t regs) \<and>
     s_DebugFields s = filled DebugFieldsArraySize (fields_of t [] regs) \<and>
     s_DebugBases s = filled DebugBasesArraySize (bases_of t [] regs) \<and>
     s_DebugDefines s = filled DebugDefinesArraySize (defines_of t regs) \<and>
     DebugTables (Header s) = Addr_s_DebugTables \<and>
     DebugTableCount (Header s) = 5"
  using finalize_result[OF assms] directory_counts[OF assms(2)]
  by (simp add: directory_of_def ClrDebugHeader_init_def)

text \<open>The theorem at the registrations of \<open>PopulateClrDebugHeaders\<close> itself.\<close>

theorem directory_after_finalize_witness:
  "list_all is_registration (registrations (point_target True)) \<and>
   within_capacity (point_target True) (registrations (point_target True)) \<and>
   s_DebugTables (projr (PopulateClrDebugHeaders (point_target True))) =
     [Some \<lparr>TableName = ''Global'', TableElements = Addr_s_DebugGlobals, RowCount = 8\<rparr>,
      Some \<lparr>TableName = ''Type'', TableElements = Addr_s_DebugTypes, RowCount = 61\<rparr>,
      Some \<lparr>TableName = ''Field'', TableElements = Addr_s_DebugFields, RowCount = 147\<rparr>,
      Some \<lparr>TableName = ''Base'', TableElements = Addr_s_DebugBases, RowCount = 15\<rparr>,
      Some \<lparr>TableName = ''Define'', TableElements = Addr_s_DebugDefines, RowCount = 6\<rparr>] \<and>
   DebugTables (Header (projr (PopulateClrDebugHeaders (point_target True)))) = Addr_s_DebugTables \<and>
   DebugTableCount (Header (projr (PopulateClrDebugHeaders (point_target True)))) = 5"
proof -
  let ?t = "point_target True"
  have r: "run ?t (registrations ?t @ make_tables @ [SET_DebugTableCount]) initial_state =
      Inr (projr (PopulateClrDebugHeaders ?t))"
    using Inr_projr[OF populate_returns[of ?t]]
    by (simp add: PopulateClrDebugHeaders_def body_def)
  have f: "FEATURE_EH_FUNCLETS ?t" by (simp add: point_target_def)
  from directory_after_finalize[OF registrations_are_registrations
      registrations_within_capacity r] f
  show ?thesis
    by (simp add: directory_of_def registrations_counts length_types_of
        registrations_are_registrations registrations_within_capacity)
qed

subsection \<open>C4: type identifiers count from zero\<close>

text \<open>
  Claim C4. Let a type registration follow any registrations \<open>pre\<close>, the whole in scope
  and within capacity. Then \<open>pre\<close> runs to a state, the registration succeeds there, and
  the identifier it declares holds the number of type registrations in \<open>pre\<close>: the Nth
  registration gets N - 1, which is also the index of its row in the Type table. The
  identifiers declared earlier hold 0, 1, 2, ... in order of declaration, keep their
  values, and are all smaller than the new one, so no value is given twice.
\<close>

theorem type_ids_count_from_zero:
  assumes "well_scoped [] (pre @ [MAKE_TYPE_ENTRY_WITH_ID T i])"
    and "list_all is_registration pre"
    and "within_capacity t (pre @ [MAKE_TYPE_ENTRY_WITH_ID T i])"
  shows "\<exists>s s'. run t pre initial_state = Inr s \<and>
     exec t (MAKE_TYPE_ENTRY_WITH_ID T i) s = Inr s' \<and>
     map_of (TypeIds s') i = Some (of_nat (length (declared pre))) \<and>
     unat (of_nat (length (declared pre)) :: uint32_t) = length (declared pre) \<and>
     s_DebugTypes s' ! length (declared pre) = Some \<lparr>TypeName = T, Size = ucast (sizeof t T)\<rparr> \<and>
     (\<forall>k < length (declared pre).
        map_of (TypeIds s') (declared pre ! k) = Some (of_nat k) \<and>
        map_of (TypeIds s) (declared pre ! k) = Some (of_nat k)) \<and>
     (\<forall>j v. map_of (TypeIds s) j = Some v \<longrightarrow>
        map_of (TypeIds s') j = Some v \<and> unat v < length (declared pre))"
proof -
  let ?x = "MAKE_TYPE_ENTRY_WITH_ID T i"
  from assms(2) have reg: "list_all is_registration (pre @ [?x])" by simp
  from run_snoc_succeeds[OF assms(1) reg assms(3)] obtain s s'
    where r: "run t pre initial_state = Inr s" and e: "exec t ?x s = Inr s'"
      and r': "run t (pre @ [?x]) initial_state = Inr s'"
    by blast
  note ids = run_TypeIds[OF r] and ids' = run_TypeIds[OF r']
  from ids' have fresh: "i \<notin> set (declared pre)" and dist: "distinct (declared pre)"
    by (simp_all add: declared_append)
  from assms(3) have cap: "length (declared pre) < DebugTypesArraySize"
    by (simp add: within_capacity_def declared_append)
  then have small: "length (declared pre) \<le> 200" by (simp add: capacity_defs)
  have a: "map_of (TypeIds s') i = Some (of_nat (length (declared pre)))"
    using ids' fresh by (simp add: declared_append index_of_append)
  have b: "unat (of_nat (length (declared pre)) :: uint32_t) = length (declared pre)"
    by (rule unat_of_nat_cap[OF small])
  from cap have "length (declared (pre @ [?x])) \<le> DebugTypesArraySize"
    by (simp add: declared_append)
  from run_s_DebugTypes[OF r' this]
  have c: "s_DebugTypes s' ! length (declared pre) = Some \<lparr>TypeName = T, Size = ucast (sizeof t T)\<rparr>"
    by (simp add: types_of_append nth_append length_types_of)
  have d: "map_of (TypeIds s') j = Some v \<and> unat v < length (declared pre)"
    if "map_of (TypeIds s) j = Some v" for j v
  proof -
    from that ids have j: "j \<in> set (declared pre)" and v: "v = of_nat (index_of (declared pre) j)"
      by (auto split: if_splits)
    from index_of_less[OF j] small have "unat v = index_of (declared pre) j"
      unfolding v by (intro unat_of_nat_cap) simp
    with index_of_less[OF j] ids' j v show ?thesis
      by (simp add: declared_append index_of_append)
  qed
  have k: "map_of (TypeIds s') (declared pre ! k) = Some (of_nat k) \<and>
      map_of (TypeIds s) (declared pre ! k) = Some (of_nat k)"
    if "k < length (declared pre)" for k
  proof -
    from that have m: "declared pre ! k \<in> set (declared pre)" by simp
    with ids index_of_nth[OF dist that]
    have "map_of (TypeIds s) (declared pre ! k) = Some (of_nat k)" by simp
    with d show ?thesis by blast
  qed
  from r e a b c k d show ?thesis by blast
qed

text \<open>
  The theorem at lines 180 to 184 of the source: \<open>Thread\<close> is the second type registered
  and gets the identifier 1.
\<close>

theorem type_ids_count_from_zero_witness:
  "well_scoped [] (take 3 (lines_180_185 (point_target True)) @
      [MAKE_TYPE_ENTRY_WITH_ID ''Thread'' ''ThreadTypeId'']) \<and>
   list_all is_registration (take 3 (lines_180_185 (point_target True))) \<and>
   within_capacity (point_target True) (take 3 (lines_180_185 (point_target True)) @
      [MAKE_TYPE_ENTRY_WITH_ID ''Thread'' ''ThreadTypeId'']) \<and>
   map_of (TypeIds (projr (run (point_target True)
      (take 4 (lines_180_185 (point_target True))) initial_state))) ''ThreadTypeId'' = Some 1 \<and>
   map_of (TypeIds (projr (run (point_target True)
      (take 4 (lines_180_185 (point_target True))) initial_state))) ''ThreadStoreTypeId'' = Some 0 \<and>
   s_DebugTypes (projr (run (point_target True)
      (take 4 (lines_180_185 (point_target True))) initial_state)) ! 1 =
     Some \<lparr>TypeName = ''Thread'', Size = 24\<rparr>"
proof -
  let ?t = "point_target True"
  let ?pre = "take 3 (lines_180_185 ?t)"
  let ?x = "MAKE_TYPE_ENTRY_WITH_ID ''Thread'' ''ThreadTypeId''"
  have m: "macro_expansion ?t = (\<lambda>a. a)" by (simp add: point_target_def)
  have t4: "take 4 (lines_180_185 ?t) = ?pre @ [?x]"
    by (simp add: lines_180_185_def MAKE_TYPE_ENTRY_def m)
  have h: "well_scoped [] (?pre @ [?x])" "list_all is_registration ?pre"
    "within_capacity ?t (?pre @ [?x])"
    and d: "declared ?pre = [''ThreadStoreTypeId'']"
    by (simp_all add: lines_180_185_def MAKE_TYPE_ENTRY_def MAKE_FIELD_ENTRY_def
        within_capacity_def capacity_defs)
  from type_ids_count_from_zero[OF h] obtain s s'
    where r: "run ?t ?pre initial_state = Inr s" and e: "exec ?t ?x s = Inr s'"
      and a: "map_of (TypeIds s') ''ThreadTypeId'' = Some (of_nat (length (declared ?pre)))"
      and c: "s_DebugTypes s' ! length (declared ?pre) =
          Some \<lparr>TypeName = ''Thread'', Size = ucast (sizeof ?t ''Thread'')\<rparr>"
      and k: "\<forall>k < length (declared ?pre).
        map_of (TypeIds s') (declared ?pre ! k) = Some (of_nat k) \<and>
        map_of (TypeIds s) (declared ?pre ! k) = Some (of_nat k)"
    by blast
  from r e have r': "run ?t (take 4 (lines_180_185 ?t)) initial_state = Inr s'"
    unfolding t4 by (simp add: run_snoc)
  from k have "map_of (TypeIds s') ''ThreadStoreTypeId'' = Some 0"
    unfolding d by simp
  with a c r' h show ?thesis
    unfolding d by (simp add: point_target_def)
qed

subsection \<open>C5: no forward references\<close>

text \<open>
  Claim C5. Let a field or base registration follow any registrations \<open>pre\<close>, the whole
  in scope and within capacity. Then \<open>pre\<close> runs to a state, the registration succeeds
  there, and the type identifier stored in the new row is smaller than the number of
  rows the Type table holds at that moment; the row of the Type table it refers to is
  already written.
\<close>

theorem no_forward_references:
  assumes "well_scoped [] (pre @ [x])" and "list_all is_registration pre"
    and "within_capacity t (pre @ [x])"
    and "x = MAKE_FIELD_ENTRY_WITH_ID T i F \<or> x = MAKE_BASE_TYPE_ENTRY_WITH_ID T i B F"
  shows "\<exists>s s' tid. run t pre initial_state = Inr s \<and> exec t x s = Inr s' \<and>
     map_of (TypeIds s) i = Some tid \<and>
     unat (currentTypePos s) = length (types_of t pre) \<and>
     unat tid < unat (currentTypePos s) \<and>
     s_DebugTypes s ! unat tid = Some (types_of t pre ! unat tid) \<and>
     (x = MAKE_FIELD_ENTRY_WITH_ID T i F \<longrightarrow>
        s_DebugFields s' ! length (fields_of t [] pre) =
          Some \<lparr>MemberName = F, TypeId = tid, Offset = ucast (offsetof t T F)\<rparr>) \<and>
     (x = MAKE_BASE_TYPE_ENTRY_WITH_ID T i B F \<longrightarrow>
        s_DebugBases s' ! length (bases_of t [] pre) =
          Some \<lparr>MemberName = B, TypeId = tid, Offset = ucast (offsetof t T F - offsetof t B F)\<rparr>)"
proof -
  from assms(2,4) have reg: "list_all is_registration (pre @ [x])" by auto
  from run_snoc_succeeds[OF assms(1) reg assms(3)] obtain s s'
    where r: "run t pre initial_state = Inr s" and e: "exec t x s = Inr s'"
      and r': "run t (pre @ [x]) initial_state = Inr s'"
    by blast
  note ids = run_TypeIds[OF r] and pos = run_positions[OF r]
  from assms(3) have cap: "length (declared pre) \<le> DebugTypesArraySize"
    by (simp add: within_capacity_def declared_append)
  then have small: "length (declared pre) \<le> 200" by (simp add: capacity_defs)
  from e assms(4) obtain tid where tid: "map_of (TypeIds s) i = Some tid"
    by (auto dest!: exec_field exec_base)
  with ids have i: "i \<in> set (declared pre)" and v: "tid = of_nat (index_of (declared pre) i)"
    by (auto split: if_splits)
  from index_of_less[OF i] small have u: "unat tid = index_of (declared pre) i"
    unfolding v by (intro unat_of_nat_cap) simp
  from pos small have p: "unat (currentTypePos s) = length (types_of t pre)"
    by (simp add: unat_of_nat_cap length_types_of)
  from u index_of_less[OF i] p have lt: "unat tid < unat (currentTypePos s)"
    by (simp add: length_types_of)
  from run_s_DebugTypes[OF r cap] lt p
  have ty: "s_DebugTypes s ! unat tid = Some (types_of t pre ! unat tid)"
    by (simp add: nth_append)
  have f: "s_DebugFields s' ! length (fields_of t [] pre) =
          Some \<lparr>MemberName = F, TypeId = tid, Offset = ucast (offsetof t T F)\<rparr>"
    if "x = MAKE_FIELD_ENTRY_WITH_ID T i F"
  proof -
    from assms(3) have "length (fields_of t [] (pre @ [x])) \<le> DebugFieldsArraySize"
      by (simp add: within_capacity_def)
    from run_s_DebugFields[OF r' this] that v show ?thesis
      by (simp add: fields_of_append nth_append)
  qed
  have b: "s_DebugBases s' ! length (bases_of t [] pre) =
          Some \<lparr>MemberName = B, TypeId = tid, Offset = ucast (offsetof t T F - offsetof t B F)\<rparr>"
    if "x = MAKE_BASE_TYPE_ENTRY_WITH_ID T i B F"
  proof -
    from assms(3) have "length (bases_of t [] (pre @ [x])) \<le> DebugBasesArraySize"
      by (simp add: within_capacity_def)
    from run_s_DebugBases[OF r' this] that v show ?thesis
      by (simp add: bases_of_append nth_append)
  qed
  from r e tid p lt ty f b show ?thesis by blast
qed

text \<open>
  The theorem at lines 180 to 185 of the source: the field \<open>m_Link\<close> refers to type 1
  when two types are registered.
\<close>

theorem no_forward_references_witness:
  "well_scoped [] (take 4 (lines_180_185 (point_target True)) @
      [MAKE_FIELD_ENTRY_WITH_ID ''Thread'' ''ThreadTypeId'' ''m_Link'']) \<and>
   list_all is_registration (take 4 (lines_180_185 (point_target True))) \<and>
   within_capacity (point_target True) (take 4 (lines_180_185 (point_target True)) @
      [MAKE_FIELD_ENTRY_WITH_ID ''Thread'' ''ThreadTypeId'' ''m_Link'']) \<and>
   map_of (TypeIds (projr (run (point_target True)
      (take 4 (lines_180_185 (point_target True))) initial_state))) ''ThreadTypeId'' = Some 1 \<and>
   unat (currentTypePos (projr (run (point_target True)
      (take 4 (lines_180_185 (point_target True))) initial_state))) = 2 \<and>
   s_DebugFields (projr (run (point_target True) (lines_180_185 (point_target True))
      initial_state)) ! 1 = Some \<lparr>MemberName = ''m_Link'', TypeId = 1, Offset = 0\<rparr>"
proof -
  let ?t = "point_target True"
  let ?pre = "take 4 (lines_180_185 ?t)"
  let ?x = "MAKE_FIELD_ENTRY_WITH_ID ''Thread'' ''ThreadTypeId'' ''m_Link''"
  have m: "macro_expansion ?t = (\<lambda>a. a)" by (simp add: point_target_def)
  have t5: "lines_180_185 ?t = ?pre @ [?x]"
    by (simp add: lines_180_185_def MAKE_FIELD_ENTRY_def m)
  have h: "well_scoped [] (?pre @ [?x])" "list_all is_registration ?pre"
    "within_capacity ?t (?pre @ [?x])"
    and d: "declared ?pre = [''ThreadStoreTypeId'', ''ThreadTypeId'']"
      "length (types_of ?t ?pre) = 2" "length (fields_of ?t [] ?pre) = 1"
    by (simp_all add: lines_180_185_def MAKE_TYPE_ENTRY_def MAKE_FIELD_ENTRY_def
        within_capacity_def capacity_defs)
  from no_forward_references[OF h, of "''Thread''" "''ThreadTypeId''" "''m_Link''" B]
  obtain s s' tid
    where r: "run ?t ?pre initial_state = Inr s" and e: "exec ?t ?x s = Inr s'"
      and a: "map_of (TypeIds s) ''ThreadTypeId'' = Some tid"
      and p: "unat (currentTypePos s) = length (types_of ?t ?pre)"
      and f: "s_DebugFields s' ! length (fields_of ?t [] ?pre) =
          Some \<lparr>MemberName = ''m_Link'', TypeId = tid,
                Offset = ucast (offsetof ?t ''Thread'' ''m_Link'')\<rparr>"
    by auto
  from run_TypeIds[OF r] a have tid: "tid = 1" unfolding d by simp
  from r e have r': "run ?t (lines_180_185 ?t) initial_state = Inr s'"
    by (subst t5) (simp add: run_snoc)
  from a p f r r' h tid show ?thesis
    unfolding d by (simp add: point_target_def)
qed

subsection \<open>C6: row counts and row order\<close>

text \<open>
  Claim C6. Any registrations whose identifiers are in scope and that stay within
  capacity, followed by the directory statements, run to completion; afterwards each
  array holds exactly the rows registered in its category, in registration order, and
  the row count published in each directory entry is the number of those rows. The
  example of the specification is the first half of the witness: registering \<open>Point\<close>
  (8 bytes), then its fields \<open>x\<close> at 0 and \<open>y\<close> at 4, gives the field rows \<open>{x, 0, 0}\<close> and
  \<open>{y, 0, 4}\<close> and a Field entry with row count 2. The second half is the body of
  \<open>PopulateClrDebugHeaders\<close>, with its globals, defines, first base row and counts.
\<close>

theorem rows_in_registration_order:
  assumes "well_scoped [] regs" and "list_all is_registration regs" and "within_capacity t regs"
  shows "\<exists>s. run t (regs @ make_tables @ [SET_DebugTableCount]) initial_state = Inr s \<and>
     s_DebugGlobals s = filled DebugGlobalsArraySize (globals_of regs) \<and>
     s_DebugTypes s = filled DebugTypesArraySize (types_of t regs) \<and>
     s_DebugFields s = filled DebugFieldsArraySize (fields_of t [] regs) \<and>
     s_DebugBases s = filled DebugBasesArraySize (bases_of t [] regs) \<and>
     s_DebugDefines s = filled DebugDefinesArraySize (defines_of t regs) \<and>
     map (map_option (unat \<circ> RowCount)) (s_DebugTables s) =
       [Some (length (globals_of regs)), Some (length (types_of t regs)),
        Some (length (fields_of t [] regs)), Some (length (bases_of t [] regs)),
        Some (length (defines_of t regs))]"
proof -
  from finalize_succeeds[OF assms] obtain s
    where r: "run t (regs @ make_tables @ [SET_DebugTableCount]) initial_state = Inr s" ..
  from finalize_result[OF assms(2,3) r] directory_counts[OF assms(3)] r show ?thesis
    by (simp add: directory_of_def)
qed

theorem rows_in_registration_order_witness:
  "well_scoped [] (point_registrations (point_target True)) \<and>
   list_all is_registration (point_registrations (point_target True)) \<and>
   within_capacity (point_target True) (point_registrations (point_target True)) \<and>
   s_DebugTypes (projr (run (point_target True)
       (point_registrations (point_target True) @ make_tables @ [SET_DebugTableCount])
       initial_state)) =
     filled 100 [\<lparr>TypeName = ''Point'', Size = 8\<rparr>] \<and>
   s_DebugFields (projr (run (point_target True)
       (point_registrations (point_target True) @ make_tables @ [SET_DebugTableCount])
       initial_state)) =
     filled 200 [\<lparr>MemberName = ''x'', TypeId = 0, Offset = 0\<rparr>,
                 \<lparr>MemberName = ''y'', TypeId = 0, Offset = 4\<rparr>] \<and>
   map (map_option (unat \<circ> RowCount)) (s_DebugTables (projr (run (point_target True)
       (point_registrations (point_target True) @ make_tables @ [SET_DebugTableCount])
       initial_state))) =
     [Some 0, Some 1, Some 2, Some 0, Some 0] \<and>
   well_scoped [] (registrations (point_target True)) \<and>
   list_all is_registration (registrations (point_target True)) \<and>
   within_capacity (point_target True) (registrations (point_target True)) \<and>
   s_DebugGlobals (projr (PopulateClrDebugHeaders (point_target True))) =
     filled 50
      [\<lparr>GlobalName = ''ThreadStore::s_pThreadStore'', Address = Addr_of ''ThreadStore::s_pThreadStore''\<rparr>,
       \<lparr>GlobalName = ''AppDomain::m_pTheAppDomain'', Address = Addr_of ''AppDomain::m_pTheAppDomain''\<rparr>,
       \<lparr>GlobalName = ''SystemDomain::m_pSystemDomain'', Address = Addr_of ''SystemDomain::m_pSystemDomain''\<rparr>,
       \<lparr>GlobalName = ''g_gcDacGlobals'', Address = Addr_of ''g_gcDacGlobals''\<rparr>,
       \<lparr>GlobalName = ''g_pFreeObjectMethodTable'', Address = Addr_of ''g_pFreeObjectMethodTable''\<rparr>,
       \<lparr>GlobalName = ''ExecutionManager::m_pEEJitManager'', Address = Addr_of ''ExecutionManager::m_pEEJitManager''\<rparr>,
       \<lparr>GlobalName = ''ExecutionManager::g_codeRangeMap'', Address = Addr_of ''ExecutionManager::g_codeRangeMap''\<rparr>,
       \<lparr>GlobalName = ''ExecutionManager::m_pReadyToRunJitManager'',
        Address = Addr_of ''ExecutionManager::m_pReadyToRunJitManager''\<rparr>] \<and>
   s_DebugDefines (projr (PopulateClrDebugHeaders (point_target True))) =
     filled 50
      [\<lparr>DefineName = ''IMAGE_FLAT'', DefineValue = 1\<rparr>,
       \<lparr>DefineName = ''IMAGE_LOADED'', DefineValue = 1\<rparr>,
       \<lparr>DefineName = ''IMAGE_COUNT'', DefineValue = 1\<rparr>,
       \<lparr>DefineName = ''MinObjectSize'', DefineValue = 1\<rparr>,
       \<lparr>DefineName = ''FEATURE_EH_FUNCLETS'', DefineValue = 1\<rparr>,
       \<lparr>DefineName = ''UNION_METHODTABLE'', DefineValue = 1\<rparr>] \<and>
   s_DebugBases (projr (PopulateClrDebugHeaders (point_target True))) ! 0 =
     Some \<lparr>MemberName = ''MethodDesc'', TypeId = 4, Offset = 0\<rparr> \<and>
   map (map_option (unat \<circ> RowCount))
       (s_DebugTables (projr (PopulateClrDebugHeaders (point_target True)))) =
     [Some 8, Some 61, Some 147, Some 15, Some 6]"
proof -
  let ?t = "point_target True"
  have f: "FEATURE_EH_FUNCLETS ?t" and v: "value_of ?t = (\<lambda>v. 1)"
    and m: "macro_expansion ?t = (\<lambda>a. a)"
    by (simp_all add: point_target_def)
  have rows: "globals_of (point_registrations ?t) = []"
    "types_of ?t (point_registrations ?t) = [\<lparr>TypeName = ''Point'', Size = 8\<rparr>]"
    "fields_of ?t [] (point_registrations ?t) =
       [\<lparr>MemberName = ''x'', TypeId = 0, Offset = 0\<rparr>,
        \<lparr>MemberName = ''y'', TypeId = 0, Offset = 4\<rparr>]"
    "bases_of ?t [] (point_registrations ?t) = []"
    "defines_of ?t (point_registrations ?t) = []"
    by (simp_all add: point_registrations_def MAKE_TYPE_ENTRY_def MAKE_FIELD_ENTRY_def
        point_target_def)
  have b0: "bases_of ?t [] (registrations ?t) ! 0 =
      \<lparr>MemberName = ''MethodDesc'', TypeId = 4, Offset = 0\<rparr>"
    unfolding body_first_base m by (simp add: point_target_def)
  from rows_in_registration_order[OF point_facts(1,2) point_facts(3)[of ?t ?t]]
  have p: "s_DebugTypes (projr (run ?t
         (point_registrations ?t @ make_tables @ [SET_DebugTableCount]) initial_state)) =
       filled 100 [\<lparr>TypeName = ''Point'', Size = 8\<rparr>] \<and>
     s_DebugFields (projr (run ?t
         (point_registrations ?t @ make_tables @ [SET_DebugTableCount]) initial_state)) =
       filled 200 [\<lparr>MemberName = ''x'', TypeId = 0, Offset = 0\<rparr>,
                   \<lparr>MemberName = ''y'', TypeId = 0, Offset = 4\<rparr>] \<and>
     map (map_option (unat \<circ> RowCount)) (s_DebugTables (projr (run ?t
         (point_registrations ?t @ make_tables @ [SET_DebugTableCount]) initial_state))) =
       [Some 0, Some 1, Some 2, Some 0, Some 0]"
    unfolding rows by (auto simp: capacity_defs)
  from rows_in_registration_order[OF registrations_well_scoped registrations_are_registrations
      registrations_within_capacity, of ?t]
  have "\<exists>s. PopulateClrDebugHeaders ?t = Inr s \<and>
     s_DebugGlobals s = filled DebugGlobalsArraySize (globals_of (registrations ?t)) \<and>
     s_DebugDefines s = filled DebugDefinesArraySize (defines_of ?t (registrations ?t)) \<and>
     s_DebugBases s = filled DebugBasesArraySize (bases_of ?t [] (registrations ?t)) \<and>
     map (map_option (unat \<circ> RowCount)) (s_DebugTables s) =
       [Some (length (globals_of (registrations ?t))), Some (length (types_of ?t (registrations ?t))),
        Some (length (fields_of ?t [] (registrations ?t))),
        Some (length (bases_of ?t [] (registrations ?t))),
        Some (length (defines_of ?t (registrations ?t)))]"
    unfolding PopulateClrDebugHeaders_def body_def
    by (elim exE conjE, intro exI conjI) assumption+
  then obtain s where r: "PopulateClrDebugHeaders ?t = Inr s"
    and g: "s_DebugGlobals s = filled DebugGlobalsArraySize (globals_of (registrations ?t))"
    and d: "s_DebugDefines s = filled DebugDefinesArraySize (defines_of ?t (registrations ?t))"
    and b: "s_DebugBases s = filled DebugBasesArraySize (bases_of ?t [] (registrations ?t))"
    and c: "map (map_option (unat \<circ> RowCount)) (s_DebugTables s) =
       [Some (length (globals_of (registrations ?t))), Some (length (types_of ?t (registrations ?t))),
        Some (length (fields_of ?t [] (registrations ?t))),
        Some (length (bases_of ?t [] (registrations ?t))),
        Some (length (defines_of ?t (registrations ?t)))]"
    by (elim exE conjE)
  have b': "s_DebugBases s ! 0 = Some \<lparr>MemberName = ''MethodDesc'', TypeId = 4, Offset = 0\<rparr>"
    unfolding b using b0 by (subst nth_filled) (simp_all add: registrations_counts capacity_defs)
  from g d c f have q: "s_DebugGlobals s =
     filled 50
      [\<lparr>GlobalName = ''ThreadStore::s_pThreadStore'', Address = Addr_of ''ThreadStore::s_pThreadStore''\<rparr>,
       \<lparr>GlobalName = ''AppDomain::m_pTheAppDomain'', Address = Addr_of ''AppDomain::m_pTheAppDomain''\<rparr>,
       \<lparr>GlobalName = ''SystemDomain::m_pSystemDomain'', Address = Addr_of ''SystemDomain::m_pSystemDomain''\<rparr>,
       \<lparr>GlobalName = ''g_gcDacGlobals'', Address = Addr_of ''g_gcDacGlobals''\<rparr>,
       \<lparr>GlobalName = ''g_pFreeObjectMethodTable'', Address = Addr_of ''g_pFreeObjectMethodTable''\<rparr>,
       \<lparr>GlobalName = ''ExecutionManager::m_pEEJitManager'', Address = Addr_of ''ExecutionManager::m_pEEJitManager''\<rparr>,
       \<lparr>GlobalName = ''ExecutionManager::g_codeRangeMap'', Address = Addr_of ''ExecutionManager::g_codeRangeMap''\<rparr>,
       \<lparr>GlobalName = ''ExecutionManager::m_pReadyToRunJitManager'',
        Address = Addr_of ''ExecutionManager::m_pReadyToRunJitManager''\<rparr>]"
    "s_DebugDefines s =
     filled 50
      [\<lparr>DefineName = ''IMAGE_FLAT'', DefineValue = 1\<rparr>,
       \<lparr>DefineName = ''IMAGE_LOADED'', DefineValue = 1\<rparr>,
       \<lparr>DefineName = ''IMAGE_COUNT'', DefineValue = 1\<rparr>,
       \<lparr>DefineName = ''MinObjectSize'', DefineValue = 1\<rparr>,
       \<lparr>DefineName = ''FEATURE_EH_FUNCLETS'', DefineValue = 1\<rparr>,
       \<lparr>DefineName = ''UNION_METHODTABLE'', DefineValue = 1\<rparr>]"
    "map (map_option (unat \<circ> RowCount)) (s_DebugTables s) =
     [Some 8, Some 61, Some 147, Some 15, Some 6]"
    by (simp_all add: body_rows v registrations_counts length_types_of capacity_defs)
  from p q b' r show ?thesis
    by (simp add: point_facts registrations_well_scoped registrations_are_registrations
        registrations_within_capacity)
qed

subsection \<open>C7: the identity fields of the header\<close>

text \<open>
  Claim C7. The cookie is the byte sequence 0x20 0x43 0x44 0x48, the ASCII text
  \<open>" CDH"\<close>. In any execution of any statements from any state, every state reached has
  the cookie, the major version, the minor version and the directory pointer of the
  state it started from; in particular every state of \<open>PopulateClrDebugHeaders\<close> has the
  values of the header's initialisers. A statement changes the header only if it is the
  store of the table count, and then it changes only that field.
\<close>

theorem header_identity_is_fixed:
  "Cookie ClrDebugHeader_init = [0x20, 0x43, 0x44, 0x48] \<and>
   Cookie ClrDebugHeader_init = map of_char '' CDH'' \<and>
   Header initial_state = ClrDebugHeader_init \<and>
   (\<forall>s' \<in> set (trace t xs s).
      Cookie (Header s') = Cookie (Header s) \<and> MajorVersion (Header s') = MajorVersion (Header s) \<and>
      MinorVersion (Header s') = MinorVersion (Header s) \<and>
      DebugTables (Header s') = DebugTables (Header s)) \<and>
   (\<forall>s'. exec t x s = Inr s' \<longrightarrow>
      Header s' = (if x = SET_DebugTableCount
                   then (Header s)\<lparr>DebugTableCount := currentTablePos s\<rparr> else Header s)) \<and>
   (\<forall>s' \<in> set (trace t (body t) initial_state).
      Cookie (Header s') = [0x20, 0x43, 0x44, 0x48] \<and> MajorVersion (Header s') = 2 \<and>
      MinorVersion (Header s') = 0 \<and> DebugTables (Header s') = Addr_s_DebugTables)"
proof -
  have "\<forall>s' \<in> set (trace t (body t) initial_state).
      Cookie (Header s') = [0x20, 0x43, 0x44, 0x48] \<and> MajorVersion (Header s') = 2 \<and>
      MinorVersion (Header s') = 0 \<and> DebugTables (Header s') = Addr_s_DebugTables"
    using trace_Header_identity[of _ t "body t" initial_state]
    by (simp add: initial_state_def ClrDebugHeader_init_def)
  moreover have "\<forall>s' \<in> set (trace t xs s).
      Cookie (Header s') = Cookie (Header s) \<and> MajorVersion (Header s') = MajorVersion (Header s) \<and>
      MinorVersion (Header s') = MinorVersion (Header s) \<and>
      DebugTables (Header s') = DebugTables (Header s)"
    using trace_Header_identity by blast
  moreover have "\<forall>s'. exec t x s = Inr s' \<longrightarrow>
      Header s' = (if x = SET_DebugTableCount
                   then (Header s)\<lparr>DebugTableCount := currentTablePos s\<rparr> else Header s)"
    using exec_Header by blast
  ultimately show ?thesis
    by (simp add: initial_state_def ClrDebugHeader_init_def)
qed

theorem header_identity_is_fixed_witness:
  "projr (PopulateClrDebugHeaders (point_target True))
     \<in> set (trace (point_target True) (body (point_target True)) initial_state) \<and>
   Cookie (Header (projr (PopulateClrDebugHeaders (point_target True)))) = [0x20, 0x43, 0x44, 0x48] \<and>
   MajorVersion (Header (projr (PopulateClrDebugHeaders (point_target True)))) = 2 \<and>
   MinorVersion (Header (projr (PopulateClrDebugHeaders (point_target True)))) = 0 \<and>
   exec (point_target True) SET_DebugTableCount initial_state =
     Inr (initial_state\<lparr>Header := ClrDebugHeader_init\<lparr>DebugTableCount := 0\<rparr>\<rparr>) \<and>
   Header (initial_state\<lparr>Header := ClrDebugHeader_init\<lparr>DebugTableCount := 0\<rparr>\<rparr>) = ClrDebugHeader_init"
proof -
  let ?t = "point_target True"
  from Inr_projr[OF populate_returns[of ?t]]
  have m: "projr (PopulateClrDebugHeaders ?t) \<in> set (trace ?t (body ?t) initial_state)"
    by (intro trace_final_mem) (simp add: PopulateClrDebugHeaders_def)
  have e: "exec ?t SET_DebugTableCount initial_state =
     Inr (initial_state\<lparr>Header := ClrDebugHeader_init\<lparr>DebugTableCount := 0\<rparr>\<rparr>)"
    by (simp add: exec.simps initial_state_def)
  from header_identity_is_fixed[of ?t "body ?t" initial_state SET_DebugTableCount] m e
  show ?thesis by (auto simp: initial_state_def ClrDebugHeader_init_def)
qed

subsection \<open>C8: failure of the executable-path lookup\<close>

text \<open>
  Claim C8 says that on every platform a failed operating-system call is propagated to
  the caller as \<open>NULL\<close> and never replaced by another value. On Linux the function has a
  fallback: when \<open>realpath("/proc/self/exe")\<close> fails it resolves the \<open>AT_EXECFN\<close> entry of
  the auxiliary vector instead, which the source's comment says is not always the
  executable. Here the first call fails and the function returns the resolved path of
  the script the process was started through.
\<close>

theorem fallback_hides_failure_counterexample:
  "realpath os_without_proc ''/proc/self/exe'' = None \<and>
   fst (minipal_getexepath linux_config os_without_proc) = Some ''/home/user/run.sh''"
  by (simp add: minipal_getexepath_def linux_config_def os_without_proc_def)

text \<open>
  Claim C8 as amended. The function returns a string exactly when the queries of the
  branch compiled for the platform succeed, and \<open>NULL\<close> otherwise: on macOS, Solaris and
  Haiku the path the system reports, resolved by \<open>realpath\<close>; on FreeBSD and Windows a
  copy of the path the system reports; on WASM a copy of the fixed path \<open>/managed\<close>;
  elsewhere the \<open>realpath\<close> of the \<open>/proc\<close> link or, when that fails and \<open>getauxval\<close> is
  available, the \<open>realpath\<close> of \<open>AT_EXECFN\<close>. A string that is returned is always one that
  \<open>realpath\<close> or \<open>strdup\<close> produced.
\<close>

theorem getexepath_results_come_from_the_os:
  "(fst (minipal_getexepath c os) = Some p \<longleftrightarrow>
      (if def_APPLE c then
         (\<exists>b. NSGetExecutablePath os = Some b \<and> realpath os b = Some p)
       else if def_FreeBSD c then
         (\<exists>b. sysctl_KERN_PROC_PATHNAME os = Some b \<and> strdup os b = Some p)
       else if def_sun c then
         (\<exists>b. getexecname os = Some b \<and> realpath os b = Some p)
       else if def_HAIKU c then
         (\<exists>b. find_path_B_APP_IMAGE_SYMBOL os = Inr b \<and> realpath os b = Some p)
       else if def_WIN32 c then
         (\<exists>b. GetModuleFileNameA os = Some b \<and> strdup os b = Some p)
       else if def_TARGET_WASM c then strdup os ''/managed'' = Some p
       else
         realpath os (if def_linux c then ''/proc/self/exe'' else ''/proc/curproc/exe'') = Some p \<or>
         (realpath os (if def_linux c then ''/proc/self/exe'' else ''/proc/curproc/exe'') = None \<and>
          HAVE_GETAUXVAL_and_AT_EXECFN c \<and>
          (\<exists>b. getauxval_AT_EXECFN os = Some b \<and> realpath os b = Some p)))) \<and>
   (fst (minipal_getexepath c os) = Some p \<longrightarrow>
      (\<exists>q. realpath os q = Some p) \<or> (\<exists>q. strdup os q = Some p))"
proof (intro conjI impI)
  show "fst (minipal_getexepath c os) = Some p \<longleftrightarrow>
      (if def_APPLE c then
         (\<exists>b. NSGetExecutablePath os = Some b \<and> realpath os b = Some p)
       else if def_FreeBSD c then
         (\<exists>b. sysctl_KERN_PROC_PATHNAME os = Some b \<and> strdup os b = Some p)
       else if def_sun c then
         (\<exists>b. getexecname os = Some b \<and> realpath os b = Some p)
       else if def_HAIKU c then
         (\<exists>b. find_path_B_APP_IMAGE_SYMBOL os = Inr b \<and> realpath os b = Some p)
       else if def_WIN32 c then
         (\<exists>b. GetModuleFileNameA os = Some b \<and> strdup os b = Some p)
       else if def_TARGET_WASM c then strdup os ''/managed'' = Some p
       else
         realpath os (if def_linux c then ''/proc/self/exe'' else ''/proc/curproc/exe'') = Some p \<or>
         (realpath os (if def_linux c then ''/proc/self/exe'' else ''/proc/curproc/exe'') = None \<and>
          HAVE_GETAUXVAL_and_AT_EXECFN c \<and>
          (\<exists>b. getauxval_AT_EXECFN os = Some b \<and> realpath os b = Some p)))"
    unfolding minipal_getexepath_def Let_def
    by (simp split: option.split sum.split)
next
  assume "fst (minipal_getexepath c os) = Some p"
  then show "(\<exists>q. realpath os q = Some p) \<or> (\<exists>q. strdup os q = Some p)"
    unfolding minipal_getexepath_def Let_def
    by (simp split: if_splits option.splits sum.splits) blast+
qed

theorem getexepath_results_come_from_the_os_witness:
  "fst (minipal_getexepath linux_config os_with_proc) = Some ''/usr/bin/dotnet'' \<and>
   realpath os_with_proc ''/proc/self/exe'' = Some ''/usr/bin/dotnet'' \<and>
   fst (minipal_getexepath linux_config os_without_proc) = Some ''/home/user/run.sh'' \<and>
   realpath os_without_proc ''/proc/self/exe'' = None \<and>
   getauxval_AT_EXECFN os_without_proc = Some ''./run.sh'' \<and>
   realpath os_without_proc ''./run.sh'' = Some ''/home/user/run.sh'' \<and>
   fst (minipal_getexepath linux_config
      (os_without_proc\<lparr>getauxval_AT_EXECFN := None\<rparr>)) = None"
proof -
  have l: "\<not> def_APPLE linux_config" "\<not> def_FreeBSD linux_config" "\<not> def_sun linux_config"
    "\<not> def_HAIKU linux_config" "\<not> def_WIN32 linux_config" "\<not> def_TARGET_WASM linux_config"
    "def_linux linux_config" "HAVE_GETAUXVAL_and_AT_EXECFN linux_config"
    by (simp_all add: linux_config_def)
  have a: "realpath os_with_proc ''/proc/self/exe'' = Some ''/usr/bin/dotnet''"
    by (simp add: os_with_proc_def)
  have b: "realpath os_without_proc ''/proc/self/exe'' = None"
    "getauxval_AT_EXECFN os_without_proc = Some ''./run.sh''"
    "realpath os_without_proc ''./run.sh'' = Some ''/home/user/run.sh''"
    by (simp_all add: os_without_proc_def)
  have n: "fst (minipal_getexepath linux_config
      (os_without_proc\<lparr>getauxval_AT_EXECFN := None\<rparr>)) \<noteq> Some p" for p
    using getexepath_results_come_from_the_os[of linux_config
        "os_without_proc\<lparr>getauxval_AT_EXECFN := None\<rparr>" p] l
    by (simp add: os_without_proc_def)
  then have n': "fst (minipal_getexepath linux_config
      (os_without_proc\<lparr>getauxval_AT_EXECFN := None\<rparr>)) = None"
    by (cases "fst (minipal_getexepath linux_config
      (os_without_proc\<lparr>getauxval_AT_EXECFN := None\<rparr>))") auto
  from getexepath_results_come_from_the_os[of linux_config os_with_proc "''/usr/bin/dotnet''"]
    getexepath_results_come_from_the_os[of linux_config os_without_proc "''/home/user/run.sh''"]
    l a b n'
  show ?thesis by simp
qed

subsection \<open>C9: the offset of a base row\<close>

text \<open>
  Claim C9. Let a base registration for type \<open>T\<close> with base \<open>B\<close> and shared member \<open>F\<close>
  follow registrations \<open>pre\<close> that register \<open>T\<close> under the identifier it uses, the whole
  in scope and within capacity. Then the registration succeeds and its row holds the
  name of the base type, the identifier of \<open>T\<close> (the index of the Type row named \<open>T\<close>), and
  as offset the low 32 bits of \<open>offsetof(T, F) - offsetof(B, F)\<close>; where \<open>F\<close> lies no lower
  in \<open>T\<close> than in \<open>B\<close> and the difference fits 32 bits, that is the difference of the two
  byte offsets as numbers.
\<close>

theorem base_rows_record_offset_difference:
  assumes "well_scoped [] (pre @ [MAKE_BASE_TYPE_ENTRY_WITH_ID T i B F])"
    and "list_all is_registration pre"
    and "within_capacity t (pre @ [MAKE_BASE_TYPE_ENTRY_WITH_ID T i B F])"
    and "MAKE_TYPE_ENTRY_WITH_ID T i \<in> set pre"
  shows "\<exists>s s' tid. run t pre initial_state = Inr s \<and>
     exec t (MAKE_BASE_TYPE_ENTRY_WITH_ID T i B F) s = Inr s' \<and>
     s_DebugBases s' ! length (bases_of t [] pre) =
       Some \<lparr>MemberName = B, TypeId = tid, Offset = ucast (baseoffset t T B F)\<rparr> \<and>
     baseoffset t T B F = offsetof t T F - offsetof t B F \<and>
     map_of (TypeIds s) i = Some tid \<and>
     s_DebugTypes s' ! unat tid = Some \<lparr>TypeName = T, Size = ucast (sizeof t T)\<rparr> \<and>
     (offsetof t B F \<le> offsetof t T F \<longrightarrow>
        unat (baseoffset t T B F) = unat (offsetof t T F) - unat (offsetof t B F)) \<and>
     (offsetof t B F \<le> offsetof t T F \<and> unat (offsetof t T F) - unat (offsetof t B F) < 2 ^ 32 \<longrightarrow>
        unat (ucast (baseoffset t T B F) :: uint32_t) =
          unat (offsetof t T F) - unat (offsetof t B F))"
proof -
  let ?x = "MAKE_BASE_TYPE_ENTRY_WITH_ID T i B F"
  from assms(2) have reg: "list_all is_registration (pre @ [?x])" by simp
  from run_snoc_succeeds[OF assms(1) reg assms(3)] obtain s s'
    where r: "run t pre initial_state = Inr s" and e: "exec t ?x s = Inr s'"
      and r': "run t (pre @ [?x]) initial_state = Inr s'"
    by blast
  note ids = run_TypeIds[OF r]
  from assms(3) have cap: "length (declared pre) \<le> DebugTypesArraySize"
    and capb: "length (bases_of t [] (pre @ [?x])) \<le> DebugBasesArraySize"
    by (simp_all add: within_capacity_def declared_append)
  then have small: "length (declared pre) \<le> 200" by (simp add: capacity_defs)
  from declared_mem[OF assms(4)] have i: "i \<in> set (declared pre)" .
  define tid :: uint32_t where "tid = of_nat (index_of (declared pre) i)"
  from ids i have m: "map_of (TypeIds s) i = Some tid" by (simp add: tid_def)
  from index_of_less[OF i] small have u: "unat tid = index_of (declared pre) i"
    unfolding tid_def by (intro unat_of_nat_cap) simp
  from run_s_DebugBases[OF r' capb]
  have row: "s_DebugBases s' ! length (bases_of t [] pre) =
       Some \<lparr>MemberName = B, TypeId = tid, Offset = ucast (baseoffset t T B F)\<rparr>"
    by (simp add: bases_of_append nth_append tid_def baseoffset_def)
  from cap have "length (declared (pre @ [?x])) \<le> DebugTypesArraySize"
    by (simp add: declared_append)
  from run_s_DebugTypes[OF r' this] index_of_less[OF i] u
    types_of_index[OF assms(4), of t] ids
  have ty: "s_DebugTypes s' ! unat tid = Some \<lparr>TypeName = T, Size = ucast (sizeof t T)\<rparr>"
    by (simp add: types_of_append nth_append length_types_of)
  have d: "unat (baseoffset t T B F) = unat (offsetof t T F) - unat (offsetof t B F)"
    if "offsetof t B F \<le> offsetof t T F"
    using that by (simp add: baseoffset_def unat_sub)
  have d32: "unat (ucast (baseoffset t T B F) :: uint32_t) =
          unat (offsetof t T F) - unat (offsetof t B F)"
    if "offsetof t B F \<le> offsetof t T F"
      and "unat (offsetof t T F) - unat (offsetof t B F) < 2 ^ 32"
    using that d by (simp add: unat_ucast_small)
  have bo: "baseoffset t T B F = offsetof t T F - offsetof t B F" by (simp add: baseoffset_def)
  from r e row bo m ty d d32 show ?thesis by blast
qed

text \<open>
  The theorem at the example target: \<open>Point3\<close> keeps its \<open>Point\<close> part at offset 8, so the
  member \<open>x\<close> lies at 8 in \<open>Point3\<close> and at 0 in \<open>Point\<close>.
\<close>

theorem base_rows_record_offset_difference_witness:
  "well_scoped [] (point_registrations (point_target True) @
      [MAKE_TYPE_ENTRY_WITH_ID ''Point3'' ''Point3TypeId''] @
      [MAKE_BASE_TYPE_ENTRY_WITH_ID ''Point3'' ''Point3TypeId'' ''Point'' ''x'']) \<and>
   list_all is_registration (point_registrations (point_target True) @
      [MAKE_TYPE_ENTRY_WITH_ID ''Point3'' ''Point3TypeId'']) \<and>
   within_capacity (point_target True) (point_registrations (point_target True) @
      [MAKE_TYPE_ENTRY_WITH_ID ''Point3'' ''Point3TypeId''] @
      [MAKE_BASE_TYPE_ENTRY_WITH_ID ''Point3'' ''Point3TypeId'' ''Point'' ''x'']) \<and>
   offsetof (point_target True) ''Point'' ''x'' \<le> offsetof (point_target True) ''Point3'' ''x'' \<and>
   unat (offsetof (point_target True) ''Point3'' ''x'') = 8 \<and>
   unat (offsetof (point_target True) ''Point'' ''x'') = 0 \<and>
   s_DebugBases (projr (run (point_target True) (point3_registrations (point_target True))
      initial_state)) ! 0 = Some \<lparr>MemberName = ''Point'', TypeId = 1, Offset = 8\<rparr> \<and>
   s_DebugTypes (projr (run (point_target True) (point3_registrations (point_target True))
      initial_state)) ! 1 = Some \<lparr>TypeName = ''Point3'', Size = 24\<rparr>"
proof -
  let ?t = "point_target True"
  let ?pre = "point_registrations ?t @ [MAKE_TYPE_ENTRY_WITH_ID ''Point3'' ''Point3TypeId'']"
  let ?x = "MAKE_BASE_TYPE_ENTRY_WITH_ID ''Point3'' ''Point3TypeId'' ''Point'' ''x''"
  have m: "macro_expansion ?t = (\<lambda>a. a)" by (simp add: point_target_def)
  have p3: "point3_registrations ?t = ?pre @ [?x]"
    by (simp add: point3_registrations_def MAKE_TYPE_ENTRY_def MAKE_BASE_TYPE_ENTRY_def m)
  have h: "well_scoped [] (?pre @ [?x])" "list_all is_registration ?pre"
    "within_capacity ?t (?pre @ [?x])" "MAKE_TYPE_ENTRY_WITH_ID ''Point3'' ''Point3TypeId'' \<in> set ?pre"
    and d: "declared ?pre = [''PointTypeId'', ''Point3TypeId'']"
      "length (bases_of ?t [] ?pre) = 0"
    by (simp_all add: point_registrations_def MAKE_TYPE_ENTRY_def MAKE_FIELD_ENTRY_def
        within_capacity_def capacity_defs)
  have o: "offsetof ?t ''Point3'' ''x'' = 8" "offsetof ?t ''Point'' ''x'' = 0"
    "sizeof ?t ''Point3'' = 24"
    by (simp_all add: point_target_def)
  from base_rows_record_offset_difference[OF h]
  obtain s s' tid
    where r: "run ?t ?pre initial_state = Inr s" and e: "exec ?t ?x s = Inr s'"
      and row: "s_DebugBases s' ! length (bases_of ?t [] ?pre) =
         Some \<lparr>MemberName = ''Point'', TypeId = tid,
               Offset = ucast (baseoffset ?t ''Point3'' ''Point'' ''x'')\<rparr>"
      and bo: "baseoffset ?t ''Point3'' ''Point'' ''x'' =
         offsetof ?t ''Point3'' ''x'' - offsetof ?t ''Point'' ''x''"
      and a: "map_of (TypeIds s) ''Point3TypeId'' = Some tid"
      and ty: "s_DebugTypes s' ! unat tid =
         Some \<lparr>TypeName = ''Point3'', Size = ucast (sizeof ?t ''Point3'')\<rparr>"
    by blast
  from run_TypeIds[OF r] a have tid: "tid = 1" unfolding d by simp
  have "run ?t (?pre @ [?x]) initial_state = Inr s'"
    using run_snoc[of ?t ?pre ?x initial_state] r e by simp
  then have r': "run ?t (point3_registrations ?t) initial_state = Inr s'"
    by (simp only: p3)
  from row bo ty r' h tid show ?thesis
    unfolding d o by simp
qed

subsection \<open>C10: the function's own registrations fit\<close>

text \<open>
  Claim C10. For the one registration sequence that \<open>PopulateClrDebugHeaders\<close> performs,
  in either build and with or without \<open>FEATURE_EH_FUNCLETS\<close>: the function returns, so
  no assertion fails; no state it passes through has a store outside an array; and it
  ends with 8 globals (of 50), 61 types (of 100), 147 fields (of 200), 15 bases (of
  100), 5 or 6 defines (of 50) and exactly 5 directory entries (of 5).
\<close>

theorem populate_stays_within_capacity:
  "\<exists>s. PopulateClrDebugHeaders t = Inr s \<and> stray s = [] \<and>
       (\<forall>s' \<in> set (trace t (body t) initial_state). stray s' = []) \<and>
       unat (currentGlobalPos s) = 8 \<and> 8 < DebugGlobalsArraySize \<and>
       unat (currentTypePos s) = 61 \<and> 61 < DebugTypesArraySize \<and>
       unat (currentFieldPos s) = 147 \<and> 147 < DebugFieldsArraySize \<and>
       unat (currentBasePos s) = 15 \<and> 15 < DebugBasesArraySize \<and>
       unat (currentDefinePos s) = (if FEATURE_EH_FUNCLETS t then 6 else 5) \<and>
       6 < DebugDefinesArraySize \<and>
       unat (currentTablePos s) = 5 \<and> DebugTablesArraySize = 5"
proof -
  from populate_succeeds[of t] obtain s1 where r1: "run t (registrations t) initial_state = Inr s1" ..
  from finalize_after_registrations[OF registrations_are_registrations
      registrations_within_capacity r1]
  obtain s where r: "run t (body t) initial_state = Inr s" and st: "stray s = []"
    and pos: "currentTablePos s = 5"
      "currentGlobalPos s = of_nat (length (globals_of (registrations t)))"
      "currentTypePos s = of_nat (length (declared (registrations t)))"
      "currentFieldPos s = of_nat (length (fields_of t [] (registrations t)))"
      "currentBasePos s = of_nat (length (bases_of t [] (registrations t)))"
      "currentDefinePos s = of_nat (length (defines_of t (registrations t)))"
    unfolding body_def by blast
  have "\<forall>s' \<in> set (trace t (body t) initial_state). stray s' = []"
    using trace_stray[OF r st] by blast
  with r st pos show ?thesis
    by (simp add: PopulateClrDebugHeaders_def registrations_counts capacity_defs)
qed

text \<open>The theorem at the debug build of the example target.\<close>

theorem populate_stays_within_capacity_witness:
  "stray (projr (PopulateClrDebugHeaders (point_target True))) = [] \<and>
   stray initial_state = [] \<and>
   unat (currentFieldPos (projr (PopulateClrDebugHeaders (point_target True)))) = 147 \<and>
   unat (currentDefinePos (projr (PopulateClrDebugHeaders (point_target True)))) = 6"
  using populate_stays_within_capacity[of "point_target True"]
    trace_head[of initial_state "point_target True" "body (point_target True)"]
  by (auto simp: point_target_def)

end
